theory Spec2Isabelle
  imports Complex_Main
begin

section \<open>JavaScript values used by the pipeline\<close>

text \<open>
  A JavaScript number is either NaN, an infinity, or a finite double; a finite double is
  kept as the rational it denotes.  Strings are lists of 8-bit code units.
\<close>

datatype jsnum = NaN | NegInf | Fin rat | PosInf

text \<open>\<open>isNaN(x)\<close> and \<open>x <= 0\<close> on numbers; every comparison with NaN is false.\<close>

fun isNaN :: "jsnum \<Rightarrow> bool" where
  "isNaN NaN = True"
| "isNaN _ = False"

fun le_zero :: "jsnum \<Rightarrow> bool" where
  "le_zero NaN = False"
| "le_zero NegInf = True"
| "le_zero (Fin q) = (q \<le> 0)"
| "le_zero PosInf = False"

subsection \<open>Character classes\<close>

definition is_digit :: "char \<Rightarrow> bool" where
  "is_digit c = (48 \<le> (of_char c :: nat) \<and> (of_char c :: nat) \<le> 57)"

text \<open>Line terminators (LF, CR) and white space (TAB, LF, VT, FF, CR, SP, NBSP).\<close>

definition is_line_terminator :: "char \<Rightarrow> bool" where
  "is_line_terminator c = ((of_char c :: nat) \<in> {10, 13})"

definition is_space :: "char \<Rightarrow> bool" where
  "is_space c = ((of_char c :: nat) \<in> {9, 10, 11, 12, 13, 32, 160})"

definition is_upper :: "char \<Rightarrow> bool" where
  "is_upper c = (65 \<le> (of_char c :: nat) \<and> (of_char c :: nat) \<le> 90)"

definition is_lower :: "char \<Rightarrow> bool" where
  "is_lower c = (97 \<le> (of_char c :: nat) \<and> (of_char c :: nat) \<le> 122)"

definition to_upper :: "char \<Rightarrow> char" where
  "to_upper c = (if is_lower c then char_of ((of_char c :: nat) - 32) else c)"

definition to_lower :: "char \<Rightarrow> char" where
  "to_lower c = (if is_upper c then char_of ((of_char c :: nat) + 32) else c)"

text \<open>\<open>String.prototype.toUpperCase\<close> and \<open>String.prototype.trim\<close>.\<close>

definition toUpperCase :: "string \<Rightarrow> string" where
  "toUpperCase s = map to_upper s"

definition trim :: "string \<Rightarrow> string" where
  "trim s = rev (dropWhile is_space (rev (dropWhile is_space s)))"

section \<open>Regular expressions with backtracking semantics\<close>

text \<open>
  The patterns of the validation service are built from literals, character classes,
  the anchors, sequencing, greedy bounded or unbounded repetition and capture groups.
\<close>

datatype re =
    Lit string
  | Cls "char \<Rightarrow> bool"
  | Bol
  | Eol
  | Seq re re
  | Rep nat "nat option" re
  | Grp nat re

text \<open>
  Captures are kept as an association list from group number to captured text, the most
  recent capture first; a group that took no part in the match has no entry.
\<close>

type_synonym caps = "(nat \<times> string) list"

text \<open>A matcher state: index into the input, the input from there on, the captures.\<close>

type_synonym mstate = "nat \<times> string \<times> caps"

text \<open>
  Under the \<open>i\<close> flag two code units match when they canonicalise to the same one;
  for the ASCII patterns used here that is equality up to ASCII letter case.
\<close>

definition chr_eq :: "bool \<Rightarrow> char \<Rightarrow> char \<Rightarrow> bool" where
  "chr_eq ci a c = (if ci then to_upper a = to_upper c else a = c)"

definition cls_match :: "bool \<Rightarrow> (char \<Rightarrow> bool) \<Rightarrow> char \<Rightarrow> bool" where
  "cls_match ci p c = (if ci then p c \<or> p (to_upper c) \<or> p (to_lower c) else p c)"

fun lit_match :: "bool \<Rightarrow> string \<Rightarrow> string \<Rightarrow> string option" where
  "lit_match ci [] s = Some s"
| "lit_match ci (a # as) [] = None"
| "lit_match ci (a # as) (c # cs) = (if chr_eq ci a c then lit_match ci as cs else None)"

text \<open>
  Greedy repetition: \<open>rept k f mn st\<close> runs the body \<open>f\<close> at most \<open>k\<close> more times, of which
  \<open>mn\<close> are still required.  Results are listed in the order in which a backtracking
  matcher tries them: one more iteration first, stopping here last.  Once the minimum is
  reached an iteration that consumes nothing is rejected.
\<close>

fun rept :: "nat \<Rightarrow> (mstate \<Rightarrow> mstate list) \<Rightarrow> nat \<Rightarrow> mstate \<Rightarrow> mstate list" where
  "rept 0 f mn st = (if mn = 0 then [st] else [])"
| "rept (Suc k) f mn st =
     concat (map (\<lambda>st'. if mn = 0 \<and> fst st' = fst st then [] else rept k f (mn - 1) st') (f st))
     @ (if mn = 0 then [st] else [])"

text \<open>All ways the pattern matches at the given state, in backtracking priority order.\<close>

fun ms :: "bool \<Rightarrow> re \<Rightarrow> mstate \<Rightarrow> mstate list" where
  "ms ci (Lit l) st =
     (case st of (i, s, c) \<Rightarrow>
        (case lit_match ci l s of None \<Rightarrow> [] | Some s' \<Rightarrow> [(i + length l, s', c)]))"
| "ms ci (Cls p) st =
     (case st of (i, s, c) \<Rightarrow>
        (case s of [] \<Rightarrow> [] | x # s' \<Rightarrow> if cls_match ci p x then [(Suc i, s', c)] else []))"
| "ms ci Bol st = (case st of (i, s, c) \<Rightarrow> if i = 0 then [st] else [])"
| "ms ci Eol st = (case st of (i, s, c) \<Rightarrow> if s = [] then [st] else [])"
| "ms ci (Seq a b) st = concat (map (ms ci b) (ms ci a st))"
| "ms ci (Rep mn mx r) st =
     (case st of (i, s, c) \<Rightarrow>
        rept (case mx of None \<Rightarrow> mn + length s | Some m \<Rightarrow> m) (ms ci r) mn st)"
| "ms ci (Grp n r) st =
     (case st of (i, s, c) \<Rightarrow>
        map (\<lambda>(i', s', c'). (i', s', (n, take (i' - i) s) # c')) (ms ci r st))"

text \<open>
  \<open>RegExp.prototype.exec\<close> without the \<open>g\<close> flag: the leftmost start index at which the
  pattern matches, with the first match in priority order; the result is the captures.
\<close>

fun exec_from :: "bool \<Rightarrow> re \<Rightarrow> nat \<Rightarrow> string \<Rightarrow> caps option" where
  "exec_from ci r i [] =
     (case ms ci r (i, [], []) of [] \<Rightarrow> None | st # _ \<Rightarrow> Some (snd (snd st)))"
| "exec_from ci r i (x # xs) =
     (case ms ci r (i, x # xs, []) of
        [] \<Rightarrow> exec_from ci r (Suc i) xs
      | st # _ \<Rightarrow> Some (snd (snd st)))"

definition match :: "bool \<Rightarrow> re \<Rightarrow> string \<Rightarrow> caps option" where
  "match ci r s = exec_from ci r 0 s"

definition test :: "bool \<Rightarrow> re \<Rightarrow> string \<Rightarrow> bool" where
  "test ci r s = (match ci r s \<noteq> None)"

text \<open>Pattern abbreviations: star, plus, optional, exact count, and the character classes.\<close>

definition Star :: "re \<Rightarrow> re" where "Star r = Rep 0 None r"
definition Plus :: "re \<Rightarrow> re" where "Plus r = Rep 1 None r"
definition Opt :: "re \<Rightarrow> re" where "Opt r = Rep 0 (Some 1) r"
definition Times :: "nat \<Rightarrow> re \<Rightarrow> re" where "Times n r = Rep n (Some n) r"
definition Digit :: re where "Digit = Cls is_digit"
definition Space :: re where "Space = Cls is_space"
definition NonSpace :: re where "NonSpace = Cls (\<lambda>c. \<not> is_space c)"
definition Dot :: re where "Dot = Cls (\<lambda>c. \<not> is_line_terminator c)"
definition DotOrComma :: re where "DotOrComma = Cls (\<lambda>c. c = CHR ''.'' \<or> c = CHR '','')"
definition Upper :: re where "Upper = Cls is_upper"

fun seqs :: "re list \<Rightarrow> re" where
  "seqs [] = Lit []"
| "seqs [r] = r"
| "seqs (r # rs) = Seq r (seqs rs)"

section \<open>The validation service: extraction and checks\<close>

text \<open>\<open>Partial<InvoiceMetadata>\<close>: every field may be undefined.\<close>

record InvoiceMetadata =
  invoiceNumber :: "string option"
  customerName :: "string option"
  totalAmount :: "jsnum option"
  currency :: "string option"
  issueDate :: "string option"

definition no_metadata :: InvoiceMetadata where
  "no_metadata = \<lparr>invoiceNumber = None, customerName = None, totalAmount = None,
                   currency = None, issueDate = None\<rparr>"

text \<open>\<open>!x\<close> for an optional string: undefined and the empty string are falsy.\<close>

fun falsy :: "string option \<Rightarrow> bool" where
  "falsy None = True"
| "falsy (Some s) = (s = [])"

text \<open>
  Rounding a non-negative rational to a double: to the nearest multiple of the unit in
  the last place of its binade (53 significant bits, least exponent \<open>-1022\<close>), ties to the
  even multiple; a result of \<open>2 ^ 1024\<close> or more is Infinity.
\<close>

function bit_length :: "int \<Rightarrow> nat" where
  "bit_length n = (if n \<le> 0 then 0 else Suc (bit_length (n div 2)))"
  by pat_completeness auto
termination
  by (relation "measure nat") auto

declare bit_length.simps [simp del]

definition pow2 :: "int \<Rightarrow> rat" where
  "pow2 e = (if 0 \<le> e then 2 ^ nat e else 1 / 2 ^ nat (- e))"

text \<open>The exponent \<open>e\<close> with \<open>2 ^ e \<le> q < 2 ^ (e + 1)\<close>, for positive \<open>q\<close>.\<close>

definition exponent_of :: "rat \<Rightarrow> int" where
  "exponent_of q =
     (if 1 \<le> q then int (bit_length \<lfloor>q\<rfloor>) - 1
      else - int (bit_length (\<lceil>1 / q\<rceil> - 1)))"

definition round_half_even :: "rat \<Rightarrow> int" where
  "round_half_even x =
     (let f = \<lfloor>x\<rfloor>; d = x - of_int f
      in if d < 1 / 2 then f else if 1 / 2 < d then f + 1 else if even f then f else f + 1)"

definition to_double :: "rat \<Rightarrow> jsnum" where
  "to_double q =
     (if q = 0 then Fin 0
      else let e = max (exponent_of q) (- 1022);
               ulp = pow2 (e - 52);
               v = of_int (round_half_even (q / ulp)) * ulp
           in if v = 0 then Fin 0 else if 1024 \<le> exponent_of v then PosInf else Fin v)"

fun negate :: "jsnum \<Rightarrow> jsnum" where
  "negate NaN = NaN"
| "negate NegInf = PosInf"
| "negate (Fin q) = Fin (- q)"
| "negate PosInf = NegInf"

text \<open>
  \<open>parseFloat\<close>: skip leading white space, read an optional sign, digits and an optional
  fraction, and ignore what follows; NaN when there is no digit.  The value is the decimal
  that was read, rounded to a double.  Exponents and the word Infinity are not read: the
  argument below is made of digits and dots only.
\<close>

definition digits_val :: "string \<Rightarrow> nat" where
  "digits_val ds = foldl (\<lambda>a c. 10 * a + ((of_char c :: nat) - 48)) 0 ds"

definition parseFloat :: "string \<Rightarrow> jsnum" where
  "parseFloat s =
     (let t = dropWhile is_space s;
          neg = (case t of [] \<Rightarrow> False | x # _ \<Rightarrow> x = CHR ''-'');
          u = (case t of [] \<Rightarrow> [] | x # r \<Rightarrow> if x = CHR ''-'' \<or> x = CHR ''+'' then r else t);
          ip = takeWhile is_digit u;
          r = dropWhile is_digit u;
          fp = (case r of [] \<Rightarrow> [] | x # r' \<Rightarrow> if x = CHR ''.'' then takeWhile is_digit r' else []);
          v = (of_nat (digits_val (ip @ fp)) :: rat) / 10 ^ length fp
      in if ip = [] \<and> fp = [] then NaN
         else if neg then negate (to_double v) else to_double v)"

text \<open>The five extraction patterns and the date check of the validator.\<close>

definition invoiceNumber_re :: re where
  "invoiceNumber_re = seqs [Lit ''Invoice Number:'', Star Space, Grp 1 (Plus NonSpace)]"

definition customerName_re :: re where
  "customerName_re = seqs [Lit ''Customer:'', Star Space, Grp 1 (Plus Dot)]"

definition totalAmount_re :: re where
  "totalAmount_re =
     seqs [Lit ''Total'', Opt (Seq (Plus Space) (Lit ''Amount'')), Lit '':'', Star Space,
           Grp 1 (seqs [Rep 1 (Some 3) Digit,
                        Star (Seq DotOrComma (Times 3 Digit)),
                        Opt (Seq DotOrComma (Times 2 Digit))]),
           Star Space,
           Opt (Grp 2 (Times 3 Upper))]"

definition currency_re :: re where
  "currency_re = seqs [Lit ''Currency:'', Star Space, Grp 1 (Times 3 Upper)]"

definition date_core :: re where
  "date_core = seqs [Times 4 Digit, Lit ''-'', Times 2 Digit, Lit ''-'', Times 2 Digit]"

definition issueDate_re :: re where
  "issueDate_re = seqs [Lit ''Date:'', Star Space, Grp 1 date_core]"

definition dateFormat_re :: re where
  "dateFormat_re = seqs [Bol, date_core, Eol]"

text \<open>
  \<open>extractInvoiceMetadata\<close>.  The first four patterns carry the \<open>i\<close> flag, the date
  pattern does not.  Group 1 of each pattern lies outside every quantifier, so it is
  defined in every match (lemma \<open>group1_defined\<close> below) and the \<open>None\<close> branches on
  group 1 are never taken.
\<close>

definition extractInvoiceMetadata :: "string \<Rightarrow> InvoiceMetadata" where
  "extractInvoiceMetadata ocrText =
     (let metadata = no_metadata;
          metadata = (case match True invoiceNumber_re ocrText of
                        None \<Rightarrow> metadata
                      | Some m \<Rightarrow> (case map_of m 1 of None \<Rightarrow> metadata
                                  | Some g \<Rightarrow> metadata\<lparr>invoiceNumber := Some (trim g)\<rparr>));
          metadata = (case match True customerName_re ocrText of
                        None \<Rightarrow> metadata
                      | Some m \<Rightarrow> (case map_of m 1 of None \<Rightarrow> metadata
                                  | Some g \<Rightarrow> metadata\<lparr>customerName := Some (trim g)\<rparr>));
          metadata = (case match True totalAmount_re ocrText of
                        None \<Rightarrow> metadata
                      | Some m \<Rightarrow> (case map_of m 1 of None \<Rightarrow> metadata
                                  | Some g \<Rightarrow>
                           (let amountStr = filter (\<lambda>c. c \<noteq> CHR '','') g;
                                metadata = metadata\<lparr>totalAmount := Some (parseFloat amountStr)\<rparr>
                            in if \<not> falsy (map_of m 2)
                               then metadata\<lparr>currency := map_option toUpperCase (map_of m 2)\<rparr>
                               else metadata)));
          metadata = (if falsy (currency metadata)
                      then (case match True currency_re ocrText of
                              None \<Rightarrow> metadata
                            | Some m \<Rightarrow> (case map_of m 1 of None \<Rightarrow> metadata
                                        | Some g \<Rightarrow> metadata\<lparr>currency := Some (toUpperCase g)\<rparr>))
                      else metadata);
          metadata = (case match False issueDate_re ocrText of
                        None \<Rightarrow> metadata
                      | Some m \<Rightarrow> (case map_of m 1 of None \<Rightarrow> metadata
                                  | Some g \<Rightarrow> metadata\<lparr>issueDate := Some g\<rparr>))
      in metadata)"

text \<open>\<open>validateInvoiceMetadata\<close>: five checks, in order, each pushing one message.\<close>

definition validateInvoiceMetadata :: "InvoiceMetadata \<Rightarrow> string list" where
  "validateInvoiceMetadata metadata =
     (let errors = [];
          errors = (if falsy (invoiceNumber metadata)
                       \<or> (case invoiceNumber metadata of None \<Rightarrow> False | Some v \<Rightarrow> length v = 0)
                    then errors @ [''Invoice Number is missing or empty.''] else errors);
          errors = (if falsy (customerName metadata)
                       \<or> (case customerName metadata of None \<Rightarrow> False | Some v \<Rightarrow> length v = 0)
                    then errors @ [''Customer Name is missing or empty.''] else errors);
          errors = (if (case totalAmount metadata of
                          None \<Rightarrow> True
                        | Some x \<Rightarrow> isNaN x \<or> le_zero x)
                    then errors @ [''Total Amount is missing, invalid, or zero/negative.'']
                    else errors);
          errors = (if falsy (currency metadata)
                       \<or> (case currency metadata of None \<Rightarrow> False | Some v \<Rightarrow> length v = 0)
                    then errors @ [''Currency is missing or empty.''] else errors);
          errors = (if falsy (issueDate metadata)
                       \<or> (case issueDate metadata of None \<Rightarrow> False
                           | Some v \<Rightarrow> \<not> test False dateFormat_re v)
                    then errors @ [''Issue Date is missing or invalid (expected YYYY-MM-DD).'']
                    else errors)
      in errors)"

section \<open>Record store, stream broker and their commands\<close>

datatype DocumentStatus =
    UPLOADED | OCR_PENDING | OCR_COMPLETED | OCR_FAILED
  | VALIDATION_PENDING | VALIDATED | VALIDATION_FAILED
  | PERSISTENCE_PENDING | PERSISTED | FAILED

record OCRResult =
  ocr_text :: string
  ocr_confidence :: rat
  ocr_language :: string

type_synonym timestamp = nat

text \<open>
  What \<open>JSON.parse\<close> reads back from \<open>JSON.stringify\<close> of the extracted metadata: an
  undefined field is left out, a string and a finite number come back as they are, and NaN
  and the infinities come back as null.
\<close>

datatype json_number = JNull | JNum rat

fun json_of_number :: "jsnum \<Rightarrow> json_number" where
  "json_of_number (Fin q) = JNum q"
| "json_of_number _ = JNull"

record StoredMetadata =
  s_invoiceNumber :: "string option"
  s_customerName :: "string option"
  s_totalAmount :: "json_number option"
  s_currency :: "string option"
  s_issueDate :: "string option"

definition stringify_metadata :: "InvoiceMetadata \<Rightarrow> StoredMetadata" where
  "stringify_metadata m =
     \<lparr>s_invoiceNumber = invoiceNumber m, s_customerName = customerName m,
      s_totalAmount = map_option json_of_number (totalAmount m),
      s_currency = currency m, s_issueDate = issueDate m\<rparr>"

text \<open>
  The hash stored under \<open>document:<id>\<close>.  A field that was never set is \<open>None\<close>; a key
  that does not exist reads as the hash with no field.  The three structured fields are
  stored by \<open>JSON.stringify\<close> and read back by \<open>JSON.parse\<close>; the hash keeps the value that is
  read back.
  The status field is read with a cast to \<open>DocumentStatus\<close>; it holds one of the ten names.
\<close>

record DocHash =
  h_id :: "string option"
  h_filename :: "string option"
  h_status :: "DocumentStatus option"
  h_createdAt :: "timestamp option"
  h_updatedAt :: "timestamp option"
  h_ocrResult :: "OCRResult option"
  h_extractedMetadata :: "StoredMetadata option"
  h_validationErrors :: "string list option"

definition empty_hash :: DocHash where
  "empty_hash = \<lparr>h_id = None, h_filename = None, h_status = None, h_createdAt = None,
                  h_updatedAt = None, h_ocrResult = None, h_extractedMetadata = None,
                  h_validationErrors = None\<rparr>"

text \<open>The field/value pairs the services pass to \<open>hset\<close>.\<close>

datatype field =
    Status DocumentStatus
  | UpdatedAt timestamp
  | OcrResult OCRResult
  | ExtractedMetadata StoredMetadata
  | ValidationErrors "string list"

fun set_field :: "DocHash \<Rightarrow> field \<Rightarrow> DocHash" where
  "set_field h (Status s) = h\<lparr>h_status := Some s\<rparr>"
| "set_field h (UpdatedAt t) = h\<lparr>h_updatedAt := Some t\<rparr>"
| "set_field h (OcrResult r) = h\<lparr>h_ocrResult := Some r\<rparr>"
| "set_field h (ExtractedMetadata m) = h\<lparr>h_extractedMetadata := Some m\<rparr>"
| "set_field h (ValidationErrors es) = h\<lparr>h_validationErrors := Some es\<rparr>"

text \<open>The commands that change the store or the broker, as logged in the trace.\<close>

datatype command =
    HSET string "field list"
  | XADD string "string list"
  | DEL string
  | XACK string string string

text \<open>
  The world the services run against: the document hashes and the binary payloads (both
  keyed by document id), the streams (each a list of entries, an entry being a flat list
  of field names and values), the acknowledged entries, the clock read by \<open>new Date()\<close>,
  a schedule saying which of the coming commands fail and with which message, and the
  trace of the commands that were carried out.
\<close>

record world =
  docs :: "string \<Rightarrow> DocHash"
  contents :: "string \<Rightarrow> string option"
  streams :: "string \<Rightarrow> string list list"
  acked :: "(string \<times> string \<times> string) list"
  clock :: timestamp
  faults :: "string option list"
  trace :: "command list"

text \<open>A computation returns a value or throws an error message, and changes the world.\<close>

type_synonym 'a io = "world \<Rightarrow> (string + 'a) \<times> world"

definition io_return :: "'a \<Rightarrow> 'a io" where
  "io_return x w = (Inr x, w)"

definition io_throw :: "string \<Rightarrow> 'a io" where
  "io_throw e w = (Inl e, w)"

definition io_bind :: "'a io \<Rightarrow> ('a \<Rightarrow> 'b io) \<Rightarrow> 'b io" where
  "io_bind m k w = (case m w of (Inl e, w') \<Rightarrow> (Inl e, w') | (Inr x, w') \<Rightarrow> k x w')"

definition io_catch :: "'a io \<Rightarrow> (string \<Rightarrow> 'a io) \<Rightarrow> 'a io" where
  "io_catch m h w = (case m w of (Inl e, w') \<Rightarrow> h e w' | (Inr x, w') \<Rightarrow> (Inr x, w'))"

text \<open>
  Every client call takes the next entry of the fault schedule: \<open>Some e\<close> makes the call
  reject with message \<open>e\<close> and no effect; \<open>None\<close>, or an exhausted schedule, lets it run.
\<close>

definition redis :: "(world \<Rightarrow> 'a \<times> world) \<Rightarrow> 'a io" where
  "redis op w =
     (case faults w of
        [] \<Rightarrow> (case op w of (x, w') \<Rightarrow> (Inr x, w'))
      | None # fs \<Rightarrow> (case op (w\<lparr>faults := fs\<rparr>) of (x, w') \<Rightarrow> (Inr x, w'))
      | Some e # fs \<Rightarrow> (Inl e, w\<lparr>faults := fs\<rparr>))"

definition hgetall :: "string \<Rightarrow> DocHash io" where
  "hgetall documentId = redis (\<lambda>w. (docs w documentId, w))"

definition getBuffer :: "string \<Rightarrow> string option io" where
  "getBuffer documentId = redis (\<lambda>w. (contents w documentId, w))"

definition hset :: "string \<Rightarrow> field list \<Rightarrow> unit io" where
  "hset documentId fvs =
     redis (\<lambda>w. ((), w\<lparr>docs := (docs w)(documentId := foldl set_field (docs w documentId) fvs),
                        trace := trace w @ [HSET documentId fvs]\<rparr>))"

definition xadd :: "string \<Rightarrow> string list \<Rightarrow> unit io" where
  "xadd topic entry =
     redis (\<lambda>w. ((), w\<lparr>streams := (streams w)(topic := streams w topic @ [entry]),
                        trace := trace w @ [XADD topic entry]\<rparr>))"

definition del :: "string \<Rightarrow> unit io" where
  "del documentId =
     redis (\<lambda>w. ((), w\<lparr>contents := (contents w)(documentId := None),
                        trace := trace w @ [DEL documentId]\<rparr>))"

definition xack :: "string \<Rightarrow> string \<Rightarrow> string \<Rightarrow> unit io" where
  "xack stream grp messageId =
     redis (\<lambda>w. ((), w\<lparr>acked := acked w @ [(stream, grp, messageId)],
                        trace := trace w @ [XACK stream grp messageId]\<rparr>))"

text \<open>\<open>new Date().toISOString()\<close> reads the clock.\<close>

definition now :: "timestamp io" where
  "now w = (Inr (clock w), w)"

section \<open>The stage handlers\<close>

text \<open>
  The \<open>Document\<close> object a handler rebuilds from the hash.  The handlers also assign to
  fields of this local object after their writes; the object is dropped when the handler
  returns, so those assignments are not kept here.
\<close>

record Document =
  d_id :: "string option"
  d_filename :: "string option"
  d_status :: "DocumentStatus option"
  d_createdAt :: "timestamp option"
  d_updatedAt :: "timestamp option"
  d_originalContent :: string
  d_ocrResult :: "OCRResult option"
  d_extractedMetadata :: "StoredMetadata option"
  d_validationErrors :: "string list option"

subsection \<open>Recognition\<close>

definition simulatedText :: string where
  "simulatedText =
     ''\<newline>        Invoice Number: INV-2025-001\<newline>        Customer: Acme Corp\<newline>        Date: 2025-07-08\<newline>        Total: 1234.56 USD\<newline>        Currency: USD\<newline>        Description: Consulting Services\<newline>        Item 1: Product A - 10 units @ 50.00 USD\<newline>        Item 2: Product B - 5 units @ 100.00 USD\<newline>        Tax: 100.00 USD\<newline>        Subtotal: 1134.56 USD\<newline>        Vendor: Example Solutions Inc.\<newline>        Address: 123 Business Rd, City, Country\<newline>        VAT ID: GB123456789\<newline>      ''"

definition simulateOCR :: "string \<Rightarrow> OCRResult" where
  "simulateOCR imageBuffer =
     \<lparr>ocr_text = simulatedText, ocr_confidence = 98 / 100, ocr_language = ''en''\<rparr>"

text \<open>The \<open>try\<close> block of \<open>processDocumentForOCR\<close> from the payload fetch on.\<close>

definition processDocumentForOCR_try :: "string \<Rightarrow> Document \<Rightarrow> unit io" where
  "processDocumentForOCR_try documentId document =
     io_bind (getBuffer documentId) (\<lambda>originalContent.
       case originalContent of
         None \<Rightarrow> io_throw (''Original content not found for document: '' @ documentId)
       | Some buf \<Rightarrow>
           (let document = document\<lparr>d_originalContent := buf\<rparr> in
            io_bind now (\<lambda>t1.
            io_bind (hset documentId [Status OCR_PENDING, UpdatedAt t1]) (\<lambda>_.
            let ocrResult = simulateOCR (d_originalContent document) in
            io_bind now (\<lambda>t2.
            io_bind (hset documentId [OcrResult ocrResult, Status OCR_COMPLETED, UpdatedAt t2]) (\<lambda>_.
            xadd ''ocr_result_queue''
                 [''documentId'', documentId, ''status'', ''OCR_COMPLETED'']))))))"

text \<open>Its \<open>catch\<close> block once \<open>document\<close> has been assigned.\<close>

definition processDocumentForOCR_catch :: "string \<Rightarrow> string \<Rightarrow> unit io" where
  "processDocumentForOCR_catch documentId error =
     io_bind now (\<lambda>t.
     io_bind (hset documentId [Status OCR_FAILED, UpdatedAt t]) (\<lambda>_.
     xadd ''dlq_ocr_failed'' [''documentId'', documentId, ''error'', error]))"

text \<open>
  \<open>processDocumentForOCR\<close>.  When \<open>hgetall\<close> itself rejects, \<open>document\<close> is still null
  and the \<open>catch\<close> block does nothing; an empty hash makes the handler return.
\<close>

definition processDocumentForOCR :: "string \<Rightarrow> unit io" where
  "processDocumentForOCR documentId w =
     (case hgetall documentId w of
        (Inl error, w1) \<Rightarrow> (Inr (), w1)
      | (Inr docHash, w1) \<Rightarrow>
          if docHash = empty_hash then (Inr (), w1)
          else
            (let document =
                   \<lparr>d_id = h_id docHash, d_filename = h_filename docHash,
                    d_status = h_status docHash, d_createdAt = h_createdAt docHash,
                    d_updatedAt = h_updatedAt docHash, d_originalContent = [],
                    d_ocrResult = None, d_extractedMetadata = None,
                    d_validationErrors = None\<rparr>
             in io_catch (processDocumentForOCR_try documentId document)
                         (processDocumentForOCR_catch documentId) w1))"

subsection \<open>Extraction and validation\<close>

definition processDocumentForValidation_try :: "string \<Rightarrow> Document \<Rightarrow> unit io" where
  "processDocumentForValidation_try documentId document =
     (case d_ocrResult document of
        None \<Rightarrow> io_throw (''OCR result missing for document '' @ documentId @ ''. Cannot validate.'')
      | Some ocr \<Rightarrow>
          if ocr_text ocr = []
          then io_throw (''OCR result missing for document '' @ documentId @ ''. Cannot validate.'')
          else
            io_bind now (\<lambda>t1.
            io_bind (hset documentId [Status VALIDATION_PENDING, UpdatedAt t1]) (\<lambda>_.
            let extractedMetadata = extractInvoiceMetadata (ocr_text ocr);
                validationErrors = validateInvoiceMetadata extractedMetadata
            in if length validationErrors > 0
               then
                 io_bind now (\<lambda>t2.
                 io_bind (hset documentId [ExtractedMetadata (stringify_metadata extractedMetadata),
                                           ValidationErrors validationErrors,
                                           Status VALIDATION_FAILED, UpdatedAt t2]) (\<lambda>_.
                 xadd ''validation_queue''
                      [''documentId'', documentId, ''status'', ''VALIDATION_FAILED'']))
               else
                 io_bind now (\<lambda>t2.
                 io_bind (hset documentId [ExtractedMetadata (stringify_metadata extractedMetadata),
                                           Status VALIDATED, UpdatedAt t2]) (\<lambda>_.
                 xadd ''validation_queue''
                      [''documentId'', documentId, ''status'', ''VALIDATED''])))))"

definition processDocumentForValidation_catch :: "string \<Rightarrow> string \<Rightarrow> unit io" where
  "processDocumentForValidation_catch documentId error =
     io_bind now (\<lambda>t.
     io_bind (hset documentId [Status VALIDATION_FAILED, UpdatedAt t]) (\<lambda>_.
     xadd ''dlq_validation_failed'' [''documentId'', documentId, ''error'', error]))"

definition processDocumentForValidation :: "string \<Rightarrow> unit io" where
  "processDocumentForValidation documentId w =
     (case hgetall documentId w of
        (Inl error, w1) \<Rightarrow> (Inr (), w1)
      | (Inr docHash, w1) \<Rightarrow>
          if docHash = empty_hash then (Inr (), w1)
          else
            (let document =
                   \<lparr>d_id = h_id docHash, d_filename = h_filename docHash,
                    d_status = h_status docHash, d_createdAt = h_createdAt docHash,
                    d_updatedAt = h_updatedAt docHash, d_originalContent = [],
                    d_ocrResult = h_ocrResult docHash, d_extractedMetadata = None,
                    d_validationErrors = None\<rparr>
             in io_catch (processDocumentForValidation_try documentId document)
                         (processDocumentForValidation_catch documentId) w1))"

subsection \<open>Persistence\<close>

definition persistDocument_try :: "string \<Rightarrow> Document \<Rightarrow> unit io" where
  "persistDocument_try documentId document =
     (if d_status document = Some VALIDATED
      then
        io_bind now (\<lambda>t.
        io_bind (hset documentId [Status PERSISTED, UpdatedAt t]) (\<lambda>_.
        del documentId))
      else if d_status document = Some VALIDATION_FAILED
      then
        io_bind now (\<lambda>t.
        hset documentId [Status FAILED, UpdatedAt t])
      else io_return ())"

definition persistDocument_catch :: "string \<Rightarrow> string \<Rightarrow> unit io" where
  "persistDocument_catch documentId error =
     io_bind now (\<lambda>t.
     io_bind (hset documentId [Status FAILED, UpdatedAt t]) (\<lambda>_.
     xadd ''dlq_persistence_failed'' [''documentId'', documentId, ''error'', error]))"

definition persistDocument :: "string \<Rightarrow> unit io" where
  "persistDocument documentId w =
     (case hgetall documentId w of
        (Inl error, w1) \<Rightarrow> (Inr (), w1)
      | (Inr docHash, w1) \<Rightarrow>
          if docHash = empty_hash then (Inr (), w1)
          else
            (let document =
                   \<lparr>d_id = h_id docHash, d_filename = h_filename docHash,
                    d_status = h_status docHash, d_createdAt = h_createdAt docHash,
                    d_updatedAt = h_updatedAt docHash, d_originalContent = [],
                    d_ocrResult = h_ocrResult docHash,
                    d_extractedMetadata = h_extractedMetadata docHash,
                    d_validationErrors = h_validationErrors docHash\<rparr>
             in io_catch (persistDocument_try documentId document)
                         (persistDocument_catch documentId) w1))"

section \<open>The stage processor loop\<close>










section \<open>Properties to be checked\<close>

subsection \<open>The sample invoice\<close>

text \<open>The five lines of the sample invoice, one per line.\<close>

definition sample_lines :: string where
  "sample_lines =
     ''Invoice Number: INV-2025-001\<newline>Customer: Acme Corp\<newline>Total: 1234.56 USD\<newline>Currency: USD\<newline>Date: 2025-07-08''"

text \<open>The same invoice without its customer line.\<close>

definition sample_no_customer :: string where
  "sample_no_customer =
     ''Invoice Number: INV-2025-001\<newline>Total: 1234.56 USD\<newline>Currency: USD\<newline>Date: 2025-07-08''"

subsection \<open>The checks of the validator, in words\<close>

text \<open>A field is present and non-empty.\<close>

fun present_nonempty :: "string option \<Rightarrow> bool" where
  "present_nonempty None = False"
| "present_nonempty (Some s) = (s \<noteq> [])"

text \<open>The amount is a positive number: defined, not NaN, greater than zero.\<close>

fun positive_number :: "jsnum option \<Rightarrow> bool" where
  "positive_number None = False"
| "positive_number (Some NaN) = False"
| "positive_number (Some NegInf) = False"
| "positive_number (Some (Fin q)) = (0 < q)"
| "positive_number (Some PosInf) = True"

text \<open>Four digits, a hyphen, two digits, a hyphen, two digits at the start of a string.\<close>

definition date_prefix :: "string \<Rightarrow> bool" where
  "date_prefix s =
     (10 \<le> length s \<and> list_all is_digit (take 4 s) \<and> s ! 4 = CHR ''-''
      \<and> list_all is_digit (take 2 (drop 5 s)) \<and> s ! 7 = CHR ''-''
      \<and> list_all is_digit (take 2 (drop 8 s)))"

text \<open>The whole string has the 4-2-2 digit shape.\<close>

definition matches_date_422 :: "string \<Rightarrow> bool" where
  "matches_date_422 s = (length s = 10 \<and> date_prefix s)"

fun date_ok :: "string option \<Rightarrow> bool" where
  "date_ok None = False"
| "date_ok (Some d) = matches_date_422 d"

subsection \<open>Captures of a pattern\<close>

text \<open>Group \<open>n\<close> is defined in a matcher state; it is defined in every match of a pattern.\<close>

definition has_cap :: "nat \<Rightarrow> mstate \<Rightarrow> bool" where
  "has_cap n st = (map_of (snd (snd st)) n \<noteq> None)"

definition always_caps :: "bool \<Rightarrow> nat \<Rightarrow> re \<Rightarrow> bool" where
  "always_caps ci n r = (\<forall>st st'. st' \<in> set (ms ci r st) \<longrightarrow> has_cap n st')"

subsection \<open>What a handler invocation writes and emits\<close>

text \<open>The statuses written by a command, and by a list of commands, in order.\<close>

fun field_status :: "field \<Rightarrow> DocumentStatus list" where
  "field_status (Status s) = [s]"
| "field_status _ = []"

fun command_statuses :: "command \<Rightarrow> DocumentStatus list" where
  "command_statuses (HSET k fs) = concat (map field_status fs)"
| "command_statuses _ = []"

definition status_writes :: "command list \<Rightarrow> DocumentStatus list" where
  "status_writes evs = concat (map command_statuses evs)"

text \<open>The topics a list of commands appends to.\<close>

fun command_topic :: "command \<Rightarrow> string list" where
  "command_topic (XADD t e) = [t]"
| "command_topic _ = []"

definition topics_written :: "command list \<Rightarrow> string list" where
  "topics_written evs = concat (map command_topic evs)"

text \<open>The commands a computation carries out when started in \<open>w\<close>.\<close>

definition events_of :: "'a io \<Rightarrow> world \<Rightarrow> command list" where
  "events_of m w = drop (length (trace w)) (trace (snd (m w)))"

text \<open>No coming store or broker call fails.\<close>

definition no_faults :: "world \<Rightarrow> bool" where
  "no_faults w = list_all (\<lambda>f. f = None) (faults w)"

text \<open>A command writes statuses from \<open>S\<close> only and appends to topics from \<open>T\<close> only.\<close>

definition confined :: "DocumentStatus set \<Rightarrow> string set \<Rightarrow> command \<Rightarrow> bool" where
  "confined S T c = (set (command_statuses c) \<subseteq> S \<and> set (command_topic c) \<subseteq> T)"

text \<open>Whatever the world, the computation only carries out commands that satisfy \<open>P\<close>.\<close>

definition emits :: "(command \<Rightarrow> bool) \<Rightarrow> 'a io \<Rightarrow> bool" where
  "emits P m = (\<forall>w. \<exists>evs. trace (snd (m w)) = trace w @ evs \<and> list_all P evs)"

text \<open>
  The commands are an initial part of a handler's error path: the write of the failure
  status \<open>st\<close> at time \<open>t\<close>, then the dead-letter entry with the error message \<open>e\<close>.
\<close>

definition failure_run ::
  "string \<Rightarrow> DocumentStatus \<Rightarrow> string \<Rightarrow> timestamp \<Rightarrow> string \<Rightarrow> command list \<Rightarrow> bool" where
  "failure_run k st topic t e evs =
     (evs = []
      \<or> evs = [HSET k [Status st, UpdatedAt t]]
      \<or> evs = [HSET k [Status st, UpdatedAt t], XADD topic [''documentId'', k, ''error'', e]])"


subsection \<open>The status transition graph\<close>

text \<open>
  The transitions as the specification lists them: UPLOADED to OCR_PENDING to
  OCR_COMPLETED or OCR_FAILED; OCR_COMPLETED to VALIDATION_PENDING to VALIDATED or
  VALIDATION_FAILED; VALIDATED to PERSISTED; VALIDATION_FAILED to FAILED.
\<close>

definition edges :: "(DocumentStatus \<times> DocumentStatus) list" where
  "edges =
     [(UPLOADED, OCR_PENDING), (OCR_PENDING, OCR_COMPLETED), (OCR_PENDING, OCR_FAILED),
      (OCR_COMPLETED, VALIDATION_PENDING), (VALIDATION_PENDING, VALIDATED),
      (VALIDATION_PENDING, VALIDATION_FAILED), (VALIDATED, PERSISTED),
      (VALIDATION_FAILED, FAILED)]"

text \<open>Each write is an edge from the status that is current when it is made.\<close>

fun follows_graph :: "DocumentStatus \<Rightarrow> DocumentStatus list \<Rightarrow> bool" where
  "follows_graph s [] = True"
| "follows_graph s (t # ts) = ((s, t) \<in> set edges \<and> follows_graph t ts)"

definition reachable :: "DocumentStatus \<Rightarrow> bool" where
  "reachable s = ((UPLOADED, s) \<in> (set edges)\<^sup>*)"

subsection \<open>Sample worlds\<close>

text \<open>One uploaded document, as the upload service leaves it: hash, payload, no queue entry yet read.\<close>

definition uploaded_hash :: DocHash where
  "uploaded_hash =
     \<lparr>h_id = Some ''doc1'', h_filename = Some ''invoice.pdf'', h_status = Some UPLOADED,
      h_createdAt = Some 0, h_updatedAt = Some 0, h_ocrResult = None,
      h_extractedMetadata = None, h_validationErrors = None\<rparr>"

definition uploaded_world :: world where
  "uploaded_world =
     \<lparr>docs = (\<lambda>k. if k = ''doc1'' then uploaded_hash else empty_hash),
      contents = (\<lambda>k. if k = ''doc1'' then Some ''%PDF-1.4'' else None),
      streams = (\<lambda>t. if t = ''document_queue''
                      then [[''documentId'', ''doc1'', ''status'', ''UPLOADED'']] else []),
      acked = [], clock = 1, faults = [], trace = []\<rparr>"

text \<open>The hash of the document once the given text has been recognised.\<close>

definition recognised_hash :: "string \<Rightarrow> DocHash" where
  "recognised_hash txt =
     uploaded_hash\<lparr>h_status := Some OCR_COMPLETED,
                   h_ocrResult := Some \<lparr>ocr_text = txt, ocr_confidence = 98 / 100,
                                        ocr_language = ''en''\<rparr>\<rparr>"

text \<open>The same world with the document in another state.\<close>

definition with_doc :: "DocHash \<Rightarrow> world \<Rightarrow> world" where
  "with_doc h w = w\<lparr>docs := (docs w)(''doc1'' := h)\<rparr>"

definition without_payload :: "world \<Rightarrow> world" where
  "without_payload w = w\<lparr>contents := (contents w)(''doc1'' := None)\<rparr>"

section \<open>Lemmas on commands and handlers\<close>

subsection \<open>Bounding the commands of a computation\<close>

lemma emitsI: "(\<And>w. \<exists>evs. trace (snd (m w)) = trace w @ evs \<and> list_all P evs) \<Longrightarrow> emits P m"
  by (simp add: emits_def)

lemma emitsD: "emits P m \<Longrightarrow> \<exists>evs. trace (snd (m w)) = trace w @ evs \<and> list_all P evs"
  by (simp add: emits_def)

lemma emits_return: "emits P (io_return x)"
  by (simp add: emits_def io_return_def)

lemma emits_throw: "emits P (io_throw e)"
  by (simp add: emits_def io_throw_def)

lemma emits_now: "emits P now"
  by (simp add: emits_def now_def)

lemma emits_bind:
  assumes m: "emits P m" and k: "\<And>x. emits P (k x)"
  shows "emits P (io_bind m k)"
proof (rule emitsI)
  fix w
  obtain r w1 where mw: "m w = (r, w1)" by (cases "m w")
  from emitsD [OF m, of w] mw obtain e1 where e1: "trace w1 = trace w @ e1" "list_all P e1"
    by auto
  show "\<exists>evs. trace (snd (io_bind m k w)) = trace w @ evs \<and> list_all P evs"
  proof (cases r)
    case (Inl e)
    with mw e1 show ?thesis by (simp add: io_bind_def)
  next
    case (Inr x)
    from emitsD [OF k, of x w1] obtain e2
      where e2: "trace (snd (k x w1)) = trace w1 @ e2" "list_all P e2" by auto
    with mw e1 Inr have "trace (snd (io_bind m k w)) = trace w @ (e1 @ e2) \<and> list_all P (e1 @ e2)"
      by (simp add: io_bind_def)
    then show ?thesis by blast
  qed
qed

lemma emits_catch:
  assumes m: "emits P m" and h: "\<And>e. emits P (h e)"
  shows "emits P (io_catch m h)"
proof (rule emitsI)
  fix w
  obtain r w1 where mw: "m w = (r, w1)" by (cases "m w")
  from emitsD [OF m, of w] mw obtain e1 where e1: "trace w1 = trace w @ e1" "list_all P e1"
    by auto
  show "\<exists>evs. trace (snd (io_catch m h w)) = trace w @ evs \<and> list_all P evs"
  proof (cases r)
    case (Inr x)
    with mw e1 show ?thesis by (simp add: io_catch_def)
  next
    case (Inl e)
    from emitsD [OF h, of e w1] obtain e2
      where e2: "trace (snd (h e w1)) = trace w1 @ e2" "list_all P e2" by auto
    with mw e1 Inl have "trace (snd (io_catch m h w)) = trace w @ (e1 @ e2) \<and> list_all P (e1 @ e2)"
      by (simp add: io_catch_def)
    then show ?thesis by blast
  qed
qed

lemma emits_redis:
  assumes "\<And>w. \<exists>evs. trace (snd (op w)) = trace w @ evs \<and> list_all P evs"
  shows "emits P (redis op)"
proof (rule emitsI)
  fix w
  show "\<exists>evs. trace (snd (redis op w)) = trace w @ evs \<and> list_all P evs"
  proof (cases "faults w")
    case Nil
    with assms [of w] show ?thesis by (cases "op w") (auto simp add: redis_def)
  next
    case (Cons f fs)
    show ?thesis
    proof (cases f)
      case None
      with Cons assms [of "w\<lparr>faults := fs\<rparr>"] show ?thesis
        by (cases "op (w\<lparr>faults := fs\<rparr>)") (auto simp add: redis_def)
    next
      case (Some e)
      with Cons show ?thesis by (simp add: redis_def)
    qed
  qed
qed

lemma emits_hgetall: "emits P (hgetall k)"
  unfolding hgetall_def by (rule emits_redis) simp

lemma emits_getBuffer: "emits P (getBuffer k)"
  unfolding getBuffer_def by (rule emits_redis) simp

lemma emits_hset: "P (HSET k fs) \<Longrightarrow> emits P (hset k fs)"
  unfolding hset_def by (rule emits_redis) simp

lemma emits_xadd: "P (XADD t e) \<Longrightarrow> emits P (xadd t e)"
  unfolding xadd_def by (rule emits_redis) simp

lemma emits_del: "P (DEL k) \<Longrightarrow> emits P (del k)"
  unfolding del_def by (rule emits_redis) simp

lemma emits_xack: "P (XACK s g i) \<Longrightarrow> emits P (xack s g i)"
  unfolding xack_def by (rule emits_redis) simp

lemmas emits_intros = emits_return emits_throw emits_now emits_bind emits_catch
  emits_hgetall emits_getBuffer emits_hset emits_xadd emits_del emits_xack

lemma emits_events: "emits P m \<Longrightarrow> list_all P (events_of m w)"
  using emitsD [of P m w] by (auto simp add: events_of_def)

lemma confined_events:
  "list_all (confined S T) evs \<Longrightarrow>
   set (status_writes evs) \<subseteq> S \<and> set (topics_written evs) \<subseteq> T"
  by (induction evs) (auto simp add: status_writes_def topics_written_def confined_def)

subsection \<open>Bounds on what each handler can write, whatever fails\<close>

lemma handler_shape:
  assumes "\<And>docHash. emits P (body docHash)"
  shows "emits P (\<lambda>w. case hgetall k w of
                       (Inl error, w1) \<Rightarrow> (Inr (), w1)
                     | (Inr docHash, w1) \<Rightarrow>
                         if docHash = empty_hash then (Inr (), w1) else body docHash w1)"
proof (rule emitsI)
  fix w
  obtain r w1 where hw: "hgetall k w = (r, w1)" by (cases "hgetall k w")
  from emitsD [OF emits_hgetall [of "\<lambda>_. False" k], of w] hw have t1: "trace w1 = trace w"
    by (auto simp add: list_all_iff)
  show "\<exists>evs. trace (snd (case hgetall k w of
                       (Inl error, w1) \<Rightarrow> (Inr (), w1)
                     | (Inr docHash, w1) \<Rightarrow>
                         if docHash = empty_hash then (Inr (), w1) else body docHash w1))
               = trace w @ evs \<and> list_all P evs"
  proof (cases r)
    case (Inl e)
    with hw t1 show ?thesis by simp
  next
    case (Inr docHash)
    with hw t1 emitsD [OF assms, of docHash w1] show ?thesis by auto
  qed
qed

lemma emits_OCR_try:
  "{OCR_PENDING, OCR_COMPLETED} \<subseteq> S \<Longrightarrow> ''ocr_result_queue'' \<in> T \<Longrightarrow>
   emits (confined S T) (processDocumentForOCR_try documentId document)"
  unfolding processDocumentForOCR_try_def Let_def
  by (auto intro!: emits_intros simp add: confined_def split: option.splits)

lemma emits_OCR_catch:
  "OCR_FAILED \<in> S \<Longrightarrow> ''dlq_ocr_failed'' \<in> T \<Longrightarrow>
   emits (confined S T) (processDocumentForOCR_catch documentId e)"
  unfolding processDocumentForOCR_catch_def
  by (auto intro!: emits_intros simp add: confined_def)

lemma emits_OCR:
  "emits (confined {OCR_PENDING, OCR_COMPLETED, OCR_FAILED}
            {''ocr_result_queue'', ''dlq_ocr_failed''})
     (processDocumentForOCR documentId)"
proof -
  let ?P = "confined {OCR_PENDING, OCR_COMPLETED, OCR_FAILED}
              {''ocr_result_queue'', ''dlq_ocr_failed''}"
  have "emits ?P (\<lambda>w. processDocumentForOCR documentId w)"
    unfolding processDocumentForOCR_def Let_def
    by (rule handler_shape, rule emits_catch, rule emits_OCR_try, simp, simp,
        rule emits_OCR_catch, simp, simp)
  then show ?thesis by simp
qed

lemma emits_Validation_try:
  "{VALIDATION_PENDING, VALIDATED, VALIDATION_FAILED} \<subseteq> S \<Longrightarrow> ''validation_queue'' \<in> T \<Longrightarrow>
   emits (confined S T) (processDocumentForValidation_try documentId document)"
  unfolding processDocumentForValidation_try_def Let_def
  by (auto intro!: emits_intros simp add: confined_def split: option.splits)

lemma emits_Validation_catch:
  "VALIDATION_FAILED \<in> S \<Longrightarrow> ''dlq_validation_failed'' \<in> T \<Longrightarrow>
   emits (confined S T) (processDocumentForValidation_catch documentId e)"
  unfolding processDocumentForValidation_catch_def
  by (auto intro!: emits_intros simp add: confined_def)

lemma emits_Validation:
  "emits (confined {VALIDATION_PENDING, VALIDATED, VALIDATION_FAILED}
            {''validation_queue'', ''dlq_validation_failed''})
     (processDocumentForValidation documentId)"
proof -
  let ?P = "confined {VALIDATION_PENDING, VALIDATED, VALIDATION_FAILED}
              {''validation_queue'', ''dlq_validation_failed''}"
  have "emits ?P (\<lambda>w. processDocumentForValidation documentId w)"
    unfolding processDocumentForValidation_def Let_def
    by (rule handler_shape, rule emits_catch, rule emits_Validation_try, simp, simp,
        rule emits_Validation_catch, simp, simp)
  then show ?thesis by simp
qed

lemma emits_persist_try:
  "{PERSISTED, FAILED} \<subseteq> S \<Longrightarrow>
   emits (confined S T) (persistDocument_try documentId document)"
  unfolding persistDocument_try_def
  by (auto intro!: emits_intros simp add: confined_def)

lemma emits_persist_catch:
  "FAILED \<in> S \<Longrightarrow> ''dlq_persistence_failed'' \<in> T \<Longrightarrow>
   emits (confined S T) (persistDocument_catch documentId e)"
  unfolding persistDocument_catch_def
  by (auto intro!: emits_intros simp add: confined_def)

lemma emits_persist:
  "emits (confined {PERSISTED, FAILED} {''dlq_persistence_failed''})
     (persistDocument documentId)"
proof -
  let ?P = "confined {PERSISTED, FAILED} {''dlq_persistence_failed''}"
  have "emits ?P (\<lambda>w. persistDocument documentId w)"
    unfolding persistDocument_def Let_def
    by (rule handler_shape, rule emits_catch, rule emits_persist_try, simp,
        rule emits_persist_catch, simp, simp)
  then show ?thesis by simp
qed

subsection \<open>Commands that do not fail\<close>

lemma no_faults_update [simp]:
  "no_faults (w\<lparr>docs := d\<rparr>) = no_faults w"
  "no_faults (w\<lparr>contents := c\<rparr>) = no_faults w"
  "no_faults (w\<lparr>streams := s\<rparr>) = no_faults w"
  "no_faults (w\<lparr>acked := a\<rparr>) = no_faults w"
  "no_faults (w\<lparr>clock := t\<rparr>) = no_faults w"
  "no_faults (w\<lparr>trace := tr\<rparr>) = no_faults w"
  by (simp_all add: no_faults_def)

lemma no_faults_tl [simp]: "no_faults w \<Longrightarrow> no_faults (w\<lparr>faults := tl (faults w)\<rparr>)"
  by (cases "faults w") (simp_all add: no_faults_def)

lemma no_faults_tl' [simp]:
  "no_faults (w\<lparr>faults := fs\<rparr>) \<Longrightarrow> no_faults (w\<lparr>faults := tl fs\<rparr>)"
  by (cases fs) (simp_all add: no_faults_def)

lemma redis_ok:
  assumes nf: "no_faults w"
  shows "redis op w = (case op (w\<lparr>faults := tl (faults w)\<rparr>) of (x, w') \<Rightarrow> (Inr x, w'))"
proof (cases "faults w")
  case Nil
  have "w\<lparr>faults := faults w\<rparr> = w" by simp
  with Nil have e: "w\<lparr>faults := []\<rparr> = w" by simp
  from Nil show ?thesis by (simp add: redis_def e)
next
  case (Cons f fs)
  with nf show ?thesis by (auto simp add: redis_def no_faults_def)
qed

lemma hgetall_ok:
  "no_faults w \<Longrightarrow> hgetall k w = (Inr (docs w k), w\<lparr>faults := tl (faults w)\<rparr>)"
  by (simp add: hgetall_def redis_ok)

lemma getBuffer_ok:
  "no_faults w \<Longrightarrow> getBuffer k w = (Inr (contents w k), w\<lparr>faults := tl (faults w)\<rparr>)"
  by (simp add: getBuffer_def redis_ok)

lemma hset_ok:
  "no_faults w \<Longrightarrow>
   hset k fs w = (Inr (), w\<lparr>faults := tl (faults w),
                             docs := (docs w)(k := foldl set_field (docs w k) fs),
                             trace := trace w @ [HSET k fs]\<rparr>)"
  by (simp add: hset_def redis_ok)

lemma xadd_ok:
  "no_faults w \<Longrightarrow>
   xadd t e w = (Inr (), w\<lparr>faults := tl (faults w),
                            streams := (streams w)(t := streams w t @ [e]),
                            trace := trace w @ [XADD t e]\<rparr>)"
  by (simp add: xadd_def redis_ok)

lemma del_ok:
  "no_faults w \<Longrightarrow>
   del k w = (Inr (), w\<lparr>faults := tl (faults w),
                         contents := (contents w)(k := None),
                         trace := trace w @ [DEL k]\<rparr>)"
  by (simp add: del_def redis_ok)

lemma xack_ok:
  "no_faults w \<Longrightarrow>
   xack s g i w = (Inr (), w\<lparr>faults := tl (faults w),
                              acked := acked w @ [(s, g, i)],
                              trace := trace w @ [XACK s g i]\<rparr>)"
  by (simp add: xack_def redis_ok)

lemmas ok_simps = hgetall_ok getBuffer_ok hset_ok xadd_ok del_ok xack_ok
  io_bind_def io_catch_def io_return_def io_throw_def now_def Let_def

lemma events_ofI: "trace (snd (m w)) = trace w @ evs \<Longrightarrow> events_of m w = evs"
  by (simp add: events_of_def)

subsection \<open>Fault-free runs of the handlers\<close>

lemma OCR_success:
  assumes "no_faults w" "docs w k \<noteq> empty_hash" "contents w k = Some buf"
  shows "fst (processDocumentForOCR k w) = Inr ()"
    and "events_of (processDocumentForOCR k) w =
          [HSET k [Status OCR_PENDING, UpdatedAt (clock w)],
           HSET k [OcrResult (simulateOCR buf), Status OCR_COMPLETED, UpdatedAt (clock w)],
           XADD ''ocr_result_queue'' [''documentId'', k, ''status'', ''OCR_COMPLETED'']]"
  using assms
  by (simp_all add: events_of_def processDocumentForOCR_def processDocumentForOCR_try_def ok_simps)

lemma OCR_no_payload:
  assumes "no_faults w" "docs w k \<noteq> empty_hash" "contents w k = None"
  shows "fst (processDocumentForOCR k w) = Inr ()"
    and "events_of (processDocumentForOCR k) w =
          [HSET k [Status OCR_FAILED, UpdatedAt (clock w)],
           XADD ''dlq_ocr_failed''
             [''documentId'', k, ''error'', ''Original content not found for document: '' @ k]]"
  using assms
  by (simp_all add: events_of_def processDocumentForOCR_def processDocumentForOCR_try_def
      processDocumentForOCR_catch_def ok_simps)

lemma Validation_failed:
  assumes "no_faults w" "docs w k \<noteq> empty_hash" "h_ocrResult (docs w k) = Some ocr"
    "ocr_text ocr \<noteq> []" "validateInvoiceMetadata (extractInvoiceMetadata (ocr_text ocr)) \<noteq> []"
  shows "fst (processDocumentForValidation k w) = Inr ()"
    and "events_of (processDocumentForValidation k) w =
          [HSET k [Status VALIDATION_PENDING, UpdatedAt (clock w)],
           HSET k [ExtractedMetadata (stringify_metadata (extractInvoiceMetadata (ocr_text ocr))),
                   ValidationErrors (validateInvoiceMetadata (extractInvoiceMetadata (ocr_text ocr))),
                   Status VALIDATION_FAILED, UpdatedAt (clock w)],
           XADD ''validation_queue'' [''documentId'', k, ''status'', ''VALIDATION_FAILED'']]"
    and "docs (snd (processDocumentForValidation k w)) =
          (docs w)(k := (docs w k)
            \<lparr>h_extractedMetadata := Some (stringify_metadata (extractInvoiceMetadata (ocr_text ocr))),
             h_validationErrors :=
               Some (validateInvoiceMetadata (extractInvoiceMetadata (ocr_text ocr))),
             h_status := Some VALIDATION_FAILED, h_updatedAt := Some (clock w)\<rparr>)"
    and "streams (snd (processDocumentForValidation k w)) =
          (streams w)(''validation_queue'' := streams w ''validation_queue''
             @ [[''documentId'', k, ''status'', ''VALIDATION_FAILED'']])"
  using assms
  by (simp_all add: events_of_def processDocumentForValidation_def
      processDocumentForValidation_try_def ok_simps)

lemma Validation_passed:
  assumes "no_faults w" "docs w k \<noteq> empty_hash" "h_ocrResult (docs w k) = Some ocr"
    "ocr_text ocr \<noteq> []" "validateInvoiceMetadata (extractInvoiceMetadata (ocr_text ocr)) = []"
  shows "fst (processDocumentForValidation k w) = Inr ()"
    and "events_of (processDocumentForValidation k) w =
          [HSET k [Status VALIDATION_PENDING, UpdatedAt (clock w)],
           HSET k [ExtractedMetadata (stringify_metadata (extractInvoiceMetadata (ocr_text ocr))),
                   Status VALIDATED, UpdatedAt (clock w)],
           XADD ''validation_queue'' [''documentId'', k, ''status'', ''VALIDATED'']]"
    and "docs (snd (processDocumentForValidation k w)) =
          (docs w)(k := (docs w k)
            \<lparr>h_extractedMetadata := Some (stringify_metadata (extractInvoiceMetadata (ocr_text ocr))),
             h_status := Some VALIDATED, h_updatedAt := Some (clock w)\<rparr>)"
    and "streams (snd (processDocumentForValidation k w)) =
          (streams w)(''validation_queue'' := streams w ''validation_queue''
             @ [[''documentId'', k, ''status'', ''VALIDATED'']])"
  using assms
  by (simp_all add: events_of_def processDocumentForValidation_def
      processDocumentForValidation_try_def ok_simps)

lemma Validation_no_text:
  assumes "no_faults w" "docs w k \<noteq> empty_hash"
    "h_ocrResult (docs w k) = None \<or> (\<exists>ocr. h_ocrResult (docs w k) = Some ocr \<and> ocr_text ocr = [])"
  shows "fst (processDocumentForValidation k w) = Inr ()"
    and "events_of (processDocumentForValidation k) w =
          [HSET k [Status VALIDATION_FAILED, UpdatedAt (clock w)],
           XADD ''dlq_validation_failed''
             [''documentId'', k, ''error'',
              ''OCR result missing for document '' @ k @ ''. Cannot validate.'']]"
  using assms
  by (auto simp add: events_of_def processDocumentForValidation_def
      processDocumentForValidation_try_def processDocumentForValidation_catch_def ok_simps)

lemma persist_validated:
  assumes "no_faults w" "h_status (docs w k) = Some VALIDATED"
  shows "fst (persistDocument k w) = Inr ()"
    and "events_of (persistDocument k) w = [HSET k [Status PERSISTED, UpdatedAt (clock w)], DEL k]"
    and "docs (snd (persistDocument k w)) =
          (docs w)(k := (docs w k)\<lparr>h_status := Some PERSISTED, h_updatedAt := Some (clock w)\<rparr>)"
    and "contents (snd (persistDocument k w)) = (contents w)(k := None)"
    and "streams (snd (persistDocument k w)) = streams w"
proof -
  from assms have "docs w k \<noteq> empty_hash" by (auto simp add: empty_hash_def)
  with assms show "fst (persistDocument k w) = Inr ()"
    and "events_of (persistDocument k) w = [HSET k [Status PERSISTED, UpdatedAt (clock w)], DEL k]"
    and "docs (snd (persistDocument k w)) =
          (docs w)(k := (docs w k)\<lparr>h_status := Some PERSISTED, h_updatedAt := Some (clock w)\<rparr>)"
    and "contents (snd (persistDocument k w)) = (contents w)(k := None)"
    and "streams (snd (persistDocument k w)) = streams w"
    by (simp_all add: events_of_def persistDocument_def persistDocument_try_def ok_simps)
qed

lemma persist_validation_failed:
  assumes "no_faults w" "h_status (docs w k) = Some VALIDATION_FAILED"
  shows "fst (persistDocument k w) = Inr ()"
    and "events_of (persistDocument k) w = [HSET k [Status FAILED, UpdatedAt (clock w)]]"
    and "docs (snd (persistDocument k w)) =
          (docs w)(k := (docs w k)\<lparr>h_status := Some FAILED, h_updatedAt := Some (clock w)\<rparr>)"
    and "contents (snd (persistDocument k w)) = contents w"
    and "streams (snd (persistDocument k w)) = streams w"
proof -
  from assms have "docs w k \<noteq> empty_hash" by (auto simp add: empty_hash_def)
  with assms show "fst (persistDocument k w) = Inr ()"
    and "events_of (persistDocument k) w = [HSET k [Status FAILED, UpdatedAt (clock w)]]"
    and "docs (snd (persistDocument k w)) =
          (docs w)(k := (docs w k)\<lparr>h_status := Some FAILED, h_updatedAt := Some (clock w)\<rparr>)"
    and "contents (snd (persistDocument k w)) = contents w"
    and "streams (snd (persistDocument k w)) = streams w"
    by (simp_all add: events_of_def persistDocument_def persistDocument_try_def ok_simps)
qed

subsection \<open>Runs under any fault schedule\<close>

lemma hgetall_result:
  "hgetall k w = (r, w1) \<Longrightarrow>
   w1 = w\<lparr>faults := tl (faults w)\<rparr> \<and> (\<forall>h. r = Inr h \<longrightarrow> h = docs w k)"
proof (cases "faults w")
  case Nil
  assume a: "hgetall k w = (r, w1)"
  have "w\<lparr>faults := faults w\<rparr> = w" by simp
  with Nil have e: "w\<lparr>faults := []\<rparr> = w" by simp
  from a Nil show ?thesis by (auto simp add: hgetall_def redis_def e)
next
  case (Cons f fs)
  assume a: "hgetall k w = (r, w1)"
  with Cons show ?thesis by (cases f) (auto simp add: hgetall_def redis_def)
qed

lemma fetch_fails:
  assumes "faults w = Some e # fs"
  shows "processDocumentForOCR k w = (Inr (), w\<lparr>faults := fs\<rparr>)"
    and "processDocumentForValidation k w = (Inr (), w\<lparr>faults := fs\<rparr>)"
    and "persistDocument k w = (Inr (), w\<lparr>faults := fs\<rparr>)"
  using assms
  by (simp_all add: processDocumentForOCR_def processDocumentForValidation_def
      persistDocument_def hgetall_def redis_def)

lemma record_absent:
  assumes "docs w k = empty_hash"
  shows "processDocumentForOCR k w = (Inr (), w\<lparr>faults := tl (faults w)\<rparr>)"
    and "processDocumentForValidation k w = (Inr (), w\<lparr>faults := tl (faults w)\<rparr>)"
    and "persistDocument k w = (Inr (), w\<lparr>faults := tl (faults w)\<rparr>)"
proof -
  obtain r w1 where h: "hgetall k w = (r, w1)" by (cases "hgetall k w")
  from hgetall_result [OF h] assms
  have w1: "w1 = w\<lparr>faults := tl (faults w)\<rparr>" and r: "\<forall>h. r = Inr h \<longrightarrow> h = empty_hash"
    by auto
  from h w1 r show "processDocumentForOCR k w = (Inr (), w\<lparr>faults := tl (faults w)\<rparr>)"
    by (cases r) (auto simp add: processDocumentForOCR_def)
  from h w1 r show "processDocumentForValidation k w = (Inr (), w\<lparr>faults := tl (faults w)\<rparr>)"
    by (cases r) (auto simp add: processDocumentForValidation_def)
  from h w1 r show "persistDocument k w = (Inr (), w\<lparr>faults := tl (faults w)\<rparr>)"
    by (cases r) (auto simp add: persistDocument_def)
qed

lemma persist_other_status:
  assumes "h_status (docs w k) \<noteq> Some VALIDATED" "h_status (docs w k) \<noteq> Some VALIDATION_FAILED"
  shows "persistDocument k w = (Inr (), w\<lparr>faults := tl (faults w)\<rparr>)"
proof -
  obtain r w1 where h: "hgetall k w = (r, w1)" by (cases "hgetall k w")
  from hgetall_result [OF h]
  have w1: "w1 = w\<lparr>faults := tl (faults w)\<rparr>" and r: "\<forall>h. r = Inr h \<longrightarrow> h = docs w k"
    by auto
  from h w1 r assms show ?thesis
    by (cases r) (auto simp add: persistDocument_def persistDocument_try_def io_catch_def
        io_return_def Let_def)
qed

lemma redis_outcomes:
  "redis op w = (case faults w of
                   Some e # fs \<Rightarrow> (Inl e, w\<lparr>faults := fs\<rparr>)
                 | _ \<Rightarrow> (case op (w\<lparr>faults := tl (faults w)\<rparr>) of (x, w') \<Rightarrow> (Inr x, w')))"
proof (cases "faults w")
  case Nil
  have "w\<lparr>faults := faults w\<rparr> = w" by simp
  with Nil have e: "w\<lparr>faults := []\<rparr> = w" by simp
  from Nil show ?thesis by (simp add: redis_def e)
next
  case (Cons f fs)
  then show ?thesis by (cases f) (simp_all add: redis_def)
qed

lemma catch_runs:
  "failure_run k OCR_FAILED ''dlq_ocr_failed'' (clock w) e
     (events_of (processDocumentForOCR_catch k e) w)"
  "failure_run k VALIDATION_FAILED ''dlq_validation_failed'' (clock w) e
     (events_of (processDocumentForValidation_catch k e) w)"
  "failure_run k FAILED ''dlq_persistence_failed'' (clock w) e
     (events_of (persistDocument_catch k e) w)"
  by (auto simp add: failure_run_def events_of_def processDocumentForOCR_catch_def
      processDocumentForValidation_catch_def persistDocument_catch_def io_bind_def now_def
      hset_def xadd_def redis_outcomes split: list.splits option.splits)

lemma failing_try_run:
  assumes H: "handler w =
      (case hgetall k w of
         (Inl error, w1) \<Rightarrow> (Inr (), w1)
       | (Inr docHash, w1) \<Rightarrow>
           if docHash = empty_hash then (Inr (), w1) else io_catch (tryf docHash) catchf w1)"
    and T: "\<exists>e w2. tryf (docs w k) (w\<lparr>faults := tl (faults w)\<rparr>) = (Inl e, w2)
                   \<and> trace w2 = trace w \<and> clock w2 = clock w"
    and C: "\<And>e w2. failure_run k st topic (clock w2) e (events_of (catchf e) w2)"
  shows "\<exists>e. failure_run k st topic (clock w) e (events_of handler w)"
proof -
  obtain r w1 where h: "hgetall k w = (r, w1)" by (cases "hgetall k w")
  from hgetall_result [OF h]
  have w1: "w1 = w\<lparr>faults := tl (faults w)\<rparr>" and r: "\<forall>h. r = Inr h \<longrightarrow> h = docs w k"
    by auto
  then have t1: "trace w1 = trace w" by simp
  show ?thesis
  proof (cases r)
    case (Inl e)
    with h t1 H have "trace (snd (handler w)) = trace w @ []" by simp
    then show ?thesis by (simp add: events_ofI failure_run_def)
  next
    case (Inr docHash)
    with r have dh: "docHash = docs w k" by simp
    show ?thesis
    proof (cases "docHash = empty_hash")
      case True
      with Inr h t1 H have "trace (snd (handler w)) = trace w @ []" by simp
      then show ?thesis by (simp add: events_ofI failure_run_def)
    next
      case False
      from T w1 dh obtain e w2
        where t: "tryf docHash w1 = (Inl e, w2)" and t2: "trace w2 = trace w"
          and c2: "clock w2 = clock w" by auto
      from Inr False h t H have "handler w = catchf e w2" by (simp add: io_catch_def)
      with t2 have "events_of handler w = events_of (catchf e) w2" by (simp add: events_of_def)
      with C [of w2 e] c2 show ?thesis by auto
    qed
  qed
qed

lemma OCR_no_payload_run:
  assumes "contents w k = None"
  shows "\<exists>e. failure_run k OCR_FAILED ''dlq_ocr_failed'' (clock w) e
               (events_of (processDocumentForOCR k) w)"
proof (rule failing_try_run [where
      tryf = "\<lambda>docHash. processDocumentForOCR_try k
                   \<lparr>d_id = h_id docHash, d_filename = h_filename docHash,
                    d_status = h_status docHash, d_createdAt = h_createdAt docHash,
                    d_updatedAt = h_updatedAt docHash, d_originalContent = [],
                    d_ocrResult = None, d_extractedMetadata = None,
                    d_validationErrors = None\<rparr>"
      and catchf = "processDocumentForOCR_catch k"])
  show "processDocumentForOCR k w =
      (case hgetall k w of
         (Inl error, w1) \<Rightarrow> (Inr (), w1)
       | (Inr docHash, w1) \<Rightarrow>
           if docHash = empty_hash then (Inr (), w1)
           else io_catch (processDocumentForOCR_try k
                   \<lparr>d_id = h_id docHash, d_filename = h_filename docHash,
                    d_status = h_status docHash, d_createdAt = h_createdAt docHash,
                    d_updatedAt = h_updatedAt docHash, d_originalContent = [],
                    d_ocrResult = None, d_extractedMetadata = None,
                    d_validationErrors = None\<rparr>) (processDocumentForOCR_catch k) w1)"
    unfolding processDocumentForOCR_def Let_def by (rule refl)
next
  from assms
  show "\<exists>e w2. processDocumentForOCR_try k
                   \<lparr>d_id = h_id (docs w k), d_filename = h_filename (docs w k),
                    d_status = h_status (docs w k), d_createdAt = h_createdAt (docs w k),
                    d_updatedAt = h_updatedAt (docs w k), d_originalContent = [],
                    d_ocrResult = None, d_extractedMetadata = None,
                    d_validationErrors = None\<rparr> (w\<lparr>faults := tl (faults w)\<rparr>) = (Inl e, w2)
                \<and> trace w2 = trace w \<and> clock w2 = clock w"
    by (auto simp add: processDocumentForOCR_try_def io_bind_def io_throw_def getBuffer_def
        redis_def split: list.splits option.splits)
next
  fix e w2
  show "failure_run k OCR_FAILED ''dlq_ocr_failed'' (clock w2) e
          (events_of (processDocumentForOCR_catch k e) w2)"
    by (rule catch_runs)
qed

lemma Validation_no_text_run:
  assumes "h_ocrResult (docs w k) = None
           \<or> (\<exists>ocr. h_ocrResult (docs w k) = Some ocr \<and> ocr_text ocr = [])"
  shows "\<exists>e. failure_run k VALIDATION_FAILED ''dlq_validation_failed'' (clock w) e
               (events_of (processDocumentForValidation k) w)"
proof (rule failing_try_run [where
      tryf = "\<lambda>docHash. processDocumentForValidation_try k
                   \<lparr>d_id = h_id docHash, d_filename = h_filename docHash,
                    d_status = h_status docHash, d_createdAt = h_createdAt docHash,
                    d_updatedAt = h_updatedAt docHash, d_originalContent = [],
                    d_ocrResult = h_ocrResult docHash, d_extractedMetadata = None,
                    d_validationErrors = None\<rparr>"
      and catchf = "processDocumentForValidation_catch k"])
  show "processDocumentForValidation k w =
      (case hgetall k w of
         (Inl error, w1) \<Rightarrow> (Inr (), w1)
       | (Inr docHash, w1) \<Rightarrow>
           if docHash = empty_hash then (Inr (), w1)
           else io_catch (processDocumentForValidation_try k
                   \<lparr>d_id = h_id docHash, d_filename = h_filename docHash,
                    d_status = h_status docHash, d_createdAt = h_createdAt docHash,
                    d_updatedAt = h_updatedAt docHash, d_originalContent = [],
                    d_ocrResult = h_ocrResult docHash, d_extractedMetadata = None,
                    d_validationErrors = None\<rparr>) (processDocumentForValidation_catch k) w1)"
    unfolding processDocumentForValidation_def Let_def by (rule refl)
next
  from assms
  show "\<exists>e w2. processDocumentForValidation_try k
                   \<lparr>d_id = h_id (docs w k), d_filename = h_filename (docs w k),
                    d_status = h_status (docs w k), d_createdAt = h_createdAt (docs w k),
                    d_updatedAt = h_updatedAt (docs w k), d_originalContent = [],
                    d_ocrResult = h_ocrResult (docs w k), d_extractedMetadata = None,
                    d_validationErrors = None\<rparr> (w\<lparr>faults := tl (faults w)\<rparr>) = (Inl e, w2)
                \<and> trace w2 = trace w \<and> clock w2 = clock w"
    by (auto simp add: processDocumentForValidation_try_def io_throw_def)
next
  fix e w2
  show "failure_run k VALIDATION_FAILED ''dlq_validation_failed'' (clock w2) e
          (events_of (processDocumentForValidation_catch k e) w2)"
    by (rule catch_runs)
qed

subsection \<open>A call after the fetch fails\<close>

lemma redis_next_ok:
  "faults w = None # fs \<Longrightarrow>
   redis op w = (case op (w\<lparr>faults := fs\<rparr>) of (x, w') \<Rightarrow> (Inr x, w'))"
  by (simp add: redis_def)

lemma redis_next_fails: "faults w = Some e # fs \<Longrightarrow> redis op w = (Inl e, w\<lparr>faults := fs\<rparr>)"
  by (simp add: redis_def)

lemma OCR_first_call_fails:
  assumes "faults w = None # Some e # fs" "list_all (\<lambda>f. f = None) fs"
    "docs w k \<noteq> empty_hash"
  shows "fst (processDocumentForOCR k w) = Inr ()"
    and "events_of (processDocumentForOCR k) w =
          [HSET k [Status OCR_FAILED, UpdatedAt (clock w)],
           XADD ''dlq_ocr_failed'' [''documentId'', k, ''error'', e]]"
proof -
  have h: "hgetall k w = (Inr (docs w k), w\<lparr>faults := Some e # fs\<rparr>)"
    using assms(1) by (simp add: hgetall_def redis_next_ok)
  have g: "getBuffer k (w\<lparr>faults := Some e # fs\<rparr>) = (Inl e, w\<lparr>faults := fs\<rparr>)"
    by (simp add: getBuffer_def redis_next_fails)
  have nf: "no_faults (w\<lparr>faults := fs\<rparr>)"
    using assms(2) by (simp add: no_faults_def)
  have run: "processDocumentForOCR k w = processDocumentForOCR_catch k e (w\<lparr>faults := fs\<rparr>)"
    using h g assms(3)
    by (simp add: processDocumentForOCR_def processDocumentForOCR_try_def io_bind_def
        io_catch_def Let_def)
  from nf show "fst (processDocumentForOCR k w) = Inr ()"
    and "events_of (processDocumentForOCR k) w =
          [HSET k [Status OCR_FAILED, UpdatedAt (clock w)],
           XADD ''dlq_ocr_failed'' [''documentId'', k, ''error'', e]]"
    by (simp_all add: run events_of_def processDocumentForOCR_catch_def ok_simps)
qed

lemma Validation_first_write_fails:
  assumes "faults w = None # Some e # fs" "list_all (\<lambda>f. f = None) fs"
    "docs w k \<noteq> empty_hash" "h_ocrResult (docs w k) = Some ocr" "ocr_text ocr \<noteq> []"
  shows "fst (processDocumentForValidation k w) = Inr ()"
    and "events_of (processDocumentForValidation k) w =
          [HSET k [Status VALIDATION_FAILED, UpdatedAt (clock w)],
           XADD ''dlq_validation_failed'' [''documentId'', k, ''error'', e]]"
proof -
  have h: "hgetall k w = (Inr (docs w k), w\<lparr>faults := Some e # fs\<rparr>)"
    using assms(1) by (simp add: hgetall_def redis_next_ok)
  have g: "hset k fv (w\<lparr>faults := Some e # fs\<rparr>) = (Inl e, w\<lparr>faults := fs\<rparr>)" for fv
    by (simp add: hset_def redis_next_fails)
  have nf: "no_faults (w\<lparr>faults := fs\<rparr>)"
    using assms(2) by (simp add: no_faults_def)
  have run: "processDocumentForValidation k w
               = processDocumentForValidation_catch k e (w\<lparr>faults := fs\<rparr>)"
    using h g assms(3,4,5)
    by (simp add: processDocumentForValidation_def processDocumentForValidation_try_def
        io_bind_def io_catch_def now_def Let_def)
  from nf show "fst (processDocumentForValidation k w) = Inr ()"
    and "events_of (processDocumentForValidation k) w =
          [HSET k [Status VALIDATION_FAILED, UpdatedAt (clock w)],
           XADD ''dlq_validation_failed'' [''documentId'', k, ''error'', e]]"
    by (simp_all add: run events_of_def processDocumentForValidation_catch_def ok_simps)
qed

lemma persist_first_write_fails:
  assumes "faults w = None # Some e # fs" "list_all (\<lambda>f. f = None) fs"
    "h_status (docs w k) = Some VALIDATED \<or> h_status (docs w k) = Some VALIDATION_FAILED"
  shows "fst (persistDocument k w) = Inr ()"
    and "events_of (persistDocument k) w =
          [HSET k [Status FAILED, UpdatedAt (clock w)],
           XADD ''dlq_persistence_failed'' [''documentId'', k, ''error'', e]]"
proof -
  from assms(3) have d: "docs w k \<noteq> empty_hash" by (auto simp add: empty_hash_def)
  have h: "hgetall k w = (Inr (docs w k), w\<lparr>faults := Some e # fs\<rparr>)"
    using assms(1) by (simp add: hgetall_def redis_next_ok)
  have g: "hset k fv (w\<lparr>faults := Some e # fs\<rparr>) = (Inl e, w\<lparr>faults := fs\<rparr>)" for fv
    by (simp add: hset_def redis_next_fails)
  have nf: "no_faults (w\<lparr>faults := fs\<rparr>)"
    using assms(2) by (simp add: no_faults_def)
  have run: "persistDocument k w = persistDocument_catch k e (w\<lparr>faults := fs\<rparr>)"
    using h g d assms(3)
    by (auto simp add: persistDocument_def persistDocument_try_def io_bind_def io_catch_def
        now_def Let_def)
  from nf show "fst (persistDocument k w) = Inr ()"
    and "events_of (persistDocument k) w =
          [HSET k [Status FAILED, UpdatedAt (clock w)],
           XADD ''dlq_persistence_failed'' [''documentId'', k, ''error'', e]]"
    by (simp_all add: run events_of_def persistDocument_catch_def ok_simps)
qed

lemma persist_delete_fails:
  assumes "faults w = None # None # Some e # fs" "list_all (\<lambda>f. f = None) fs"
    "h_status (docs w k) = Some VALIDATED"
  shows "fst (persistDocument k w) = Inr ()"
    and "events_of (persistDocument k) w =
          [HSET k [Status PERSISTED, UpdatedAt (clock w)],
           HSET k [Status FAILED, UpdatedAt (clock w)],
           XADD ''dlq_persistence_failed'' [''documentId'', k, ''error'', e]]"
proof -
  let ?w2 = "w\<lparr>faults := Some e # fs,
                docs := (docs w)(k := (docs w k)\<lparr>h_status := Some PERSISTED,
                                                   h_updatedAt := Some (clock w)\<rparr>),
                trace := trace w @ [HSET k [Status PERSISTED, UpdatedAt (clock w)]]\<rparr>"
  from assms(3) have d: "docs w k \<noteq> empty_hash" by (auto simp add: empty_hash_def)
  have h: "hgetall k w = (Inr (docs w k), w\<lparr>faults := None # Some e # fs\<rparr>)"
    using assms(1) by (simp add: hgetall_def redis_next_ok)
  have s1: "hset k [Status PERSISTED, UpdatedAt (clock w)] (w\<lparr>faults := None # Some e # fs\<rparr>)
              = (Inr (), ?w2)"
    by (simp add: hset_def redis_next_ok)
  have g: "del k ?w2 = (Inl e, ?w2\<lparr>faults := fs\<rparr>)"
    by (simp add: del_def redis_next_fails)
  have nf: "no_faults (?w2\<lparr>faults := fs\<rparr>)"
    using assms(2) by (simp add: no_faults_def)
  have nf0: "no_faults (w\<lparr>faults := fs\<rparr>)"
    using assms(2) by (simp add: no_faults_def)
  have run: "persistDocument k w = persistDocument_catch k e (?w2\<lparr>faults := fs\<rparr>)"
    using h s1 g d assms(3)
    by (simp add: persistDocument_def persistDocument_try_def io_bind_def io_catch_def
        now_def Let_def)
  from nf nf0 show "fst (persistDocument k w) = Inr ()"
    and "events_of (persistDocument k) w =
          [HSET k [Status PERSISTED, UpdatedAt (clock w)],
           HSET k [Status FAILED, UpdatedAt (clock w)],
           XADD ''dlq_persistence_failed'' [''documentId'', k, ''error'', e]]"
    by (simp_all add: run events_of_def persistDocument_catch_def ok_simps)
qed

subsection \<open>Looking up the document id\<close>





subsection \<open>The processor loop\<close>




subsection \<open>Reachable statuses\<close>

lemma reachable_step: "reachable a \<Longrightarrow> (a, b) \<in> set edges \<Longrightarrow> reachable b"
  by (auto simp add: reachable_def intro: rtrancl_into_rtrancl)

lemma reachable_UPLOADED: "reachable UPLOADED"
  by (simp add: reachable_def)

lemma reachable_OCR: "reachable OCR_PENDING" "reachable OCR_COMPLETED" "reachable OCR_FAILED"
proof -
  show p: "reachable OCR_PENDING"
    by (rule reachable_step [OF reachable_UPLOADED]) (simp add: edges_def)
  show "reachable OCR_COMPLETED"
    by (rule reachable_step [OF p]) (simp add: edges_def)
  show "reachable OCR_FAILED"
    by (rule reachable_step [OF p]) (simp add: edges_def)
qed

lemma reachable_Validation:
  "reachable VALIDATION_PENDING" "reachable VALIDATED" "reachable VALIDATION_FAILED"
proof -
  show p: "reachable VALIDATION_PENDING"
    by (rule reachable_step [OF reachable_OCR(2)]) (simp add: edges_def)
  show "reachable VALIDATED"
    by (rule reachable_step [OF p]) (simp add: edges_def)
  show "reachable VALIDATION_FAILED"
    by (rule reachable_step [OF p]) (simp add: edges_def)
qed

lemma reachable_final: "reachable PERSISTED" "reachable FAILED"
proof -
  show "reachable PERSISTED"
    by (rule reachable_step [OF reachable_Validation(2)]) (simp add: edges_def)
  show "reachable FAILED"
    by (rule reachable_step [OF reachable_Validation(3)]) (simp add: edges_def)
qed

lemma handler_writes_reachable:
  "\<forall>s \<in> set (status_writes (events_of (processDocumentForOCR k) w)). reachable s"
  "\<forall>s \<in> set (status_writes (events_of (processDocumentForValidation k) w)). reachable s"
  "\<forall>s \<in> set (status_writes (events_of (persistDocument k) w)). reachable s"
proof -
  from confined_events [OF emits_events [OF emits_OCR, of k w]]
  show "\<forall>s \<in> set (status_writes (events_of (processDocumentForOCR k) w)). reachable s"
    using reachable_OCR by auto
  from confined_events [OF emits_events [OF emits_Validation, of k w]]
  show "\<forall>s \<in> set (status_writes (events_of (processDocumentForValidation k) w)). reachable s"
    using reachable_Validation by auto
  from confined_events [OF emits_events [OF emits_persist, of k w]]
  show "\<forall>s \<in> set (status_writes (events_of (persistDocument k) w)). reachable s"
    using reachable_final by auto
qed

section \<open>Lemmas on pattern matching\<close>

lemma cls_match_False: "cls_match False p = p"
  by (rule ext) (simp add: cls_match_def)

lemma rept_cls:
  "rept k (ms ci (Cls p)) k (i, s, c) =
     (if k \<le> length s \<and> list_all (cls_match ci p) (take k s)
      then [(i + k, drop k s, c)] else [])"
proof (induction k arbitrary: i s)
  case 0
  then show ?case by simp
next
  case (Suc k)
  show ?case
  proof (cases s)
    case Nil
    then show ?thesis by simp
  next
    case (Cons x xs)
    then show ?thesis using Suc.IH [of "Suc i" xs] by simp
  qed
qed

lemma ms_Times_Digit:
  "ms False (Times k Digit) (i, s, c) =
     (if k \<le> length s \<and> list_all is_digit (take k s) then [(i + k, drop k s, c)] else [])"
  using rept_cls [of k False is_digit i s c]
  by (simp add: Times_def Digit_def cls_match_False)

lemma lit_match_dash:
  "lit_match False ''-'' s =
     (if 1 \<le> length s \<and> s ! 0 = CHR ''-'' then Some (drop 1 s) else None)"
  by (cases s) (simp_all add: chr_eq_def)

lemma ms_date_core:
  "ms False date_core (i, s, c) = (if date_prefix s then [(i + 10, drop 10 s, c)] else [])"
  by (auto simp add: date_core_def ms_Times_Digit lit_match_dash date_prefix_def)

lemma exec_from_Bol: "0 < i \<Longrightarrow> exec_from ci (Seq Bol r) i s = None"
  by (induction s arbitrary: i) simp_all

text \<open>The anchored date pattern of the validator accepts exactly the 4-2-2 strings.\<close>

lemma test_dateFormat: "test False dateFormat_re s = matches_date_422 s"
proof (cases s)
  case Nil
  then show ?thesis
    by (simp add: test_def match_def dateFormat_re_def ms_date_core matches_date_422_def
        date_prefix_def)
next
  case (Cons x xs)
  then show ?thesis
    by (auto simp add: test_def match_def dateFormat_re_def ms_date_core exec_from_Bol
        matches_date_422_def date_prefix_def)
qed

subsection \<open>Group 1 of the extraction patterns is defined in every match\<close>

lemma rept_keeps:
  assumes f: "\<And>st st'. st' \<in> set (f st) \<Longrightarrow> P st \<Longrightarrow> P st'"
  shows "st' \<in> set (rept k f mn st) \<Longrightarrow> P st \<Longrightarrow> P st'"
proof (induction k arbitrary: mn st)
  case 0
  then show ?case by (simp split: if_splits)
next
  case (Suc k)
  from Suc.prems(1) consider
      (more) st1 where "st1 \<in> set (f st)" "st' \<in> set (rept k f (mn - 1) st1)"
    | (stop) "st' = st"
    by (auto split: if_splits)
  then show ?case
  proof cases
    case more
    from f [OF more(1) Suc.prems(2)] have "P st1" .
    with Suc.IH [OF more(2)] show ?thesis .
  next
    case stop
    with Suc.prems(2) show ?thesis by simp
  qed
qed

lemma ms_keeps: "st' \<in> set (ms ci r st) \<Longrightarrow> has_cap n st \<Longrightarrow> has_cap n st'"
proof (induction r arbitrary: st st')
  case (Lit l)
  then show ?case by (cases st) (auto simp add: has_cap_def split: option.splits)
next
  case (Cls p)
  then show ?case by (cases st) (auto simp add: has_cap_def split: list.splits if_splits)
next
  case Bol
  then show ?case by (cases st) (auto split: if_splits)
next
  case Eol
  then show ?case by (cases st) (auto split: if_splits)
next
  case (Seq a b)
  from Seq.prems(1) obtain st1 where "st1 \<in> set (ms ci a st)" "st' \<in> set (ms ci b st1)"
    by auto
  with Seq.IH Seq.prems(2) show ?case by blast
next
  case (Rep mn mx r)
  obtain i s c where st: "st = (i, s, c)" by (cases st)
  with Rep.prems(1)
  have "st' \<in> set (rept (case mx of None \<Rightarrow> mn + length s | Some m \<Rightarrow> m) (ms ci r) mn st)"
    by simp
  then show ?case
    by (rule rept_keeps [where P = "has_cap n", rotated]) (auto intro: Rep.IH Rep.prems(2))
next
  case (Grp m r)
  obtain i s c where st: "st = (i, s, c)" by (cases st)
  with Grp.prems(1) obtain i' s' c' where
    in': "(i', s', c') \<in> set (ms ci r st)" and st': "st' = (i', s', (m, take (i' - i) s) # c')"
    by auto
  from Grp.IH [OF in' Grp.prems(2)] st' show ?case by (simp add: has_cap_def)
qed

lemma always_caps_Grp: "always_caps ci n (Grp n r)"
  by (auto simp add: always_caps_def has_cap_def)

lemma always_caps_Seq1: "always_caps ci n a \<Longrightarrow> always_caps ci n (Seq a b)"
  unfolding always_caps_def using ms_keeps by fastforce

lemma always_caps_Seq2: "always_caps ci n b \<Longrightarrow> always_caps ci n (Seq a b)"
  unfolding always_caps_def by fastforce

lemma always_capsD: "always_caps ci n r \<Longrightarrow> st' \<in> set (ms ci r st) \<Longrightarrow> has_cap n st'"
  unfolding always_caps_def by blast

lemma exec_from_caps:
  "always_caps ci n r \<Longrightarrow> exec_from ci r i s = Some m \<Longrightarrow> map_of m n \<noteq> None"
proof (induction s arbitrary: i)
  case Nil
  note outer = Nil
  show ?case
  proof (cases "ms ci r (i, [], [])")
    case Nil
    with outer show ?thesis by simp
  next
    case (Cons st sts)
    then have "st \<in> set (ms ci r (i, [], []))" by simp
    from always_capsD [OF outer(1) this] have "has_cap n st" .
    with Cons outer(2) show ?thesis by (auto simp add: has_cap_def)
  qed
next
  case (Cons x xs)
  note ih = Cons.IH and outer = Cons.prems
  show ?case
  proof (cases "ms ci r (i, x # xs, [])")
    case Nil
    with ih outer show ?thesis by simp
  next
    case (Cons st sts)
    then have "st \<in> set (ms ci r (i, x # xs, []))" by simp
    from always_capsD [OF outer(1) this] have "has_cap n st" .
    with Cons outer(2) show ?thesis by (auto simp add: has_cap_def)
  qed
qed

lemma group1_defined:
  "match True invoiceNumber_re s = Some m \<Longrightarrow> map_of m 1 \<noteq> None"
  "match True customerName_re s = Some m \<Longrightarrow> map_of m 1 \<noteq> None"
  "match True totalAmount_re s = Some m \<Longrightarrow> map_of m 1 \<noteq> None"
  "match True currency_re s = Some m \<Longrightarrow> map_of m 1 \<noteq> None"
  "match False issueDate_re s = Some m \<Longrightarrow> map_of m 1 \<noteq> None"
proof -
  have "always_caps True 1 invoiceNumber_re"
    by (simp add: invoiceNumber_re_def always_caps_Seq2 always_caps_Grp)
  then show "match True invoiceNumber_re s = Some m \<Longrightarrow> map_of m 1 \<noteq> None"
    unfolding match_def by (rule exec_from_caps)
  have "always_caps True 1 customerName_re"
    by (simp add: customerName_re_def always_caps_Seq2 always_caps_Grp)
  then show "match True customerName_re s = Some m \<Longrightarrow> map_of m 1 \<noteq> None"
    unfolding match_def by (rule exec_from_caps)
  have "always_caps True 1 totalAmount_re"
    by (simp add: totalAmount_re_def always_caps_Seq1 always_caps_Seq2 always_caps_Grp)
  then show "match True totalAmount_re s = Some m \<Longrightarrow> map_of m 1 \<noteq> None"
    unfolding match_def by (rule exec_from_caps)
  have "always_caps True 1 currency_re"
    by (simp add: currency_re_def always_caps_Seq2 always_caps_Grp)
  then show "match True currency_re s = Some m \<Longrightarrow> map_of m 1 \<noteq> None"
    unfolding match_def by (rule exec_from_caps)
  have "always_caps False 1 issueDate_re"
    by (simp add: issueDate_re_def always_caps_Seq2 always_caps_Grp)
  then show "match False issueDate_re s = Some m \<Longrightarrow> map_of m 1 \<noteq> None"
    unfolding match_def by (rule exec_from_caps)
qed

subsection \<open>The five patterns on the sample invoice\<close>

lemma sample_invoiceNumber:
  "match True invoiceNumber_re sample_lines = Some [(1, ''INV-2025-001'')]"
  unfolding sample_lines_def by code_simp

lemma sample_customerName:
  "match True customerName_re sample_lines = Some [(1, ''Acme Corp'')]"
  unfolding sample_lines_def by code_simp

lemma sample_totalAmount:
  "match True totalAmount_re sample_lines = Some [(1, ''123'')]"
  unfolding sample_lines_def by code_simp

lemma sample_currency:
  "match True currency_re sample_lines = Some [(1, ''USD'')]"
  unfolding sample_lines_def by code_simp

lemma sample_issueDate:
  "match False issueDate_re sample_lines = Some [(1, ''2025-07-08'')]"
  unfolding sample_lines_def by code_simp

lemma sample_parseFloat: "parseFloat ''123'' = Fin 123"
  by code_simp

lemma sample_trims:
  "trim ''INV-2025-001'' = ''INV-2025-001''" "trim ''Acme Corp'' = ''Acme Corp''"
  "toUpperCase ''USD'' = ''USD''"
  by code_simp+

lemma sample_extracted:
  "extractInvoiceMetadata sample_lines =
     \<lparr>invoiceNumber = Some ''INV-2025-001'', customerName = Some ''Acme Corp'',
      totalAmount = Some (Fin 123), currency = Some ''USD'',
      issueDate = Some ''2025-07-08''\<rparr>"
  by (simp add: extractInvoiceMetadata_def no_metadata_def sample_invoiceNumber
      sample_customerName sample_totalAmount sample_currency sample_issueDate
      sample_parseFloat sample_trims)

lemma sample_date_ok: "matches_date_422 ''2025-07-08''"
  by (simp add: matches_date_422_def date_prefix_def is_digit_def)

subsection \<open>The five patterns on the invoice without customer line\<close>

lemma no_customer_invoiceNumber:
  "match True invoiceNumber_re sample_no_customer = Some [(1, ''INV-2025-001'')]"
  unfolding sample_no_customer_def by code_simp

lemma no_customer_customerName:
  "match True customerName_re sample_no_customer = None"
  unfolding sample_no_customer_def by code_simp

lemma no_customer_totalAmount:
  "match True totalAmount_re sample_no_customer = Some [(1, ''123'')]"
  unfolding sample_no_customer_def by code_simp

lemma no_customer_currency:
  "match True currency_re sample_no_customer = Some [(1, ''USD'')]"
  unfolding sample_no_customer_def by code_simp

lemma no_customer_issueDate:
  "match False issueDate_re sample_no_customer = Some [(1, ''2025-07-08'')]"
  unfolding sample_no_customer_def by code_simp

lemma no_customer_extracted:
  "extractInvoiceMetadata sample_no_customer =
     \<lparr>invoiceNumber = Some ''INV-2025-001'', customerName = None,
      totalAmount = Some (Fin 123), currency = Some ''USD'',
      issueDate = Some ''2025-07-08''\<rparr>"
  by (simp add: extractInvoiceMetadata_def no_metadata_def no_customer_invoiceNumber
      no_customer_customerName no_customer_totalAmount no_customer_currency
      no_customer_issueDate sample_parseFloat sample_trims)

section \<open>The validator\<close>

lemma falsy_present: "falsy x = (\<not> present_nonempty x)"
  by (cases x) simp_all

lemma amount_check:
  "(case x of None \<Rightarrow> True | Some v \<Rightarrow> isNaN v \<or> le_zero v) = (\<not> positive_number x)"
proof (cases x)
  case None
  then show ?thesis by simp
next
  case (Some v)
  then show ?thesis by (cases v) auto
qed

lemma empty_check:
  "(falsy x \<or> (case x of None \<Rightarrow> False | Some v \<Rightarrow> length v = 0)) = (\<not> present_nonempty x)"
  by (cases x) simp_all

lemma date_check:
  "(falsy x \<or> (case x of None \<Rightarrow> False | Some v \<Rightarrow> \<not> test False dateFormat_re v))
     = (\<not> date_ok x)"
  by (cases x) (auto simp add: test_dateFormat matches_date_422_def)

text \<open>
  The result of \<open>validateInvoiceMetadata\<close> is one message for each failed check, in the order
  of the checks.
\<close>

lemma validate_messages:
  "validateInvoiceMetadata m =
     (if present_nonempty (invoiceNumber m) then [] else [''Invoice Number is missing or empty.''])
     @ (if present_nonempty (customerName m) then [] else [''Customer Name is missing or empty.''])
     @ (if positive_number (totalAmount m) then []
        else [''Total Amount is missing, invalid, or zero/negative.''])
     @ (if present_nonempty (currency m) then [] else [''Currency is missing or empty.''])
     @ (if date_ok (issueDate m) then []
        else [''Issue Date is missing or invalid (expected YYYY-MM-DD).''])"
  unfolding validateInvoiceMetadata_def Let_def empty_check amount_check date_check
  by simp

text \<open>
  C7.  For every partial invoice metadata, \<open>validateInvoiceMetadata\<close> returns the empty list
  exactly when the invoice number, the customer name and the currency are present and
  non-empty, the total amount is a positive number (defined, not NaN, greater than zero)
  and the issue date is present and has the 4-2-2 digit shape; in every case the result
  holds one message for each failed check, in the order of the checks.
\<close>

theorem validateInvoiceMetadata_checks:
  "(validateInvoiceMetadata m = [] \<longleftrightarrow>
      present_nonempty (invoiceNumber m) \<and> present_nonempty (customerName m)
      \<and> positive_number (totalAmount m) \<and> present_nonempty (currency m)
      \<and> date_ok (issueDate m))
   \<and> validateInvoiceMetadata m =
     (if present_nonempty (invoiceNumber m) then [] else [''Invoice Number is missing or empty.''])
     @ (if present_nonempty (customerName m) then [] else [''Customer Name is missing or empty.''])
     @ (if positive_number (totalAmount m) then []
        else [''Total Amount is missing, invalid, or zero/negative.''])
     @ (if present_nonempty (currency m) then [] else [''Currency is missing or empty.''])
     @ (if date_ok (issueDate m) then []
        else [''Issue Date is missing or invalid (expected YYYY-MM-DD).''])"
proof
  show "validateInvoiceMetadata m = [] \<longleftrightarrow>
      present_nonempty (invoiceNumber m) \<and> present_nonempty (customerName m)
      \<and> positive_number (totalAmount m) \<and> present_nonempty (currency m)
      \<and> date_ok (issueDate m)"
    by (simp add: validate_messages)
next
  show "validateInvoiceMetadata m =
     (if present_nonempty (invoiceNumber m) then [] else [''Invoice Number is missing or empty.''])
     @ (if present_nonempty (customerName m) then [] else [''Customer Name is missing or empty.''])
     @ (if positive_number (totalAmount m) then []
        else [''Total Amount is missing, invalid, or zero/negative.''])
     @ (if present_nonempty (currency m) then [] else [''Currency is missing or empty.''])
     @ (if date_ok (issueDate m) then []
        else [''Issue Date is missing or invalid (expected YYYY-MM-DD).''])"
    by (rule validate_messages)
qed

text \<open>
  An instance: a record with an amount of zero and a date with a one-digit day fails
  exactly those two checks.
\<close>

theorem validateInvoiceMetadata_checks_witness:
  "validateInvoiceMetadata
     \<lparr>invoiceNumber = Some ''INV-7'', customerName = Some ''Acme Corp'',
      totalAmount = Some (Fin 0), currency = Some ''USD'', issueDate = Some ''2025-07-8''\<rparr>
   = [''Total Amount is missing, invalid, or zero/negative.'',
      ''Issue Date is missing or invalid (expected YYYY-MM-DD).'']"
  using validateInvoiceMetadata_checks
    [of "\<lparr>invoiceNumber = Some ''INV-7'', customerName = Some ''Acme Corp'',
          totalAmount = Some (Fin 0), currency = Some ''USD'',
          issueDate = Some ''2025-07-8''\<rparr>"]
  by (simp add: matches_date_422_def)

text \<open>
  C1.  On the sample invoice (the five lines \<open>Invoice Number: INV-2025-001\<close>,
  \<open>Customer: Acme Corp\<close>, \<open>Total: 1234.56 USD\<close>, \<open>Currency: USD\<close>, \<open>Date: 2025-07-08\<close>)
  \<open>extractInvoiceMetadata\<close> returns the invoice number, customer name, currency and issue
  date of the invoice, but the total amount 123 and not 1234.56: the amount pattern reads
  one to three digits and then only groups that start with a dot or a comma, so it stops
  after \<open>123\<close>.  The validator accepts the result.
\<close>

theorem extractInvoiceMetadata_sample:
  "extractInvoiceMetadata sample_lines =
     \<lparr>invoiceNumber = Some ''INV-2025-001'', customerName = Some ''Acme Corp'',
      totalAmount = Some (Fin 123), currency = Some ''USD'',
      issueDate = Some ''2025-07-08''\<rparr>
   \<and> totalAmount (extractInvoiceMetadata sample_lines) \<noteq> Some (Fin (123456 / 100))
   \<and> validateInvoiceMetadata (extractInvoiceMetadata sample_lines) = []"
  by (simp add: sample_extracted validate_messages sample_date_ok)

section \<open>Sample worlds unfolded\<close>

lemmas world_defs = uploaded_world_def uploaded_hash_def recognised_hash_def with_doc_def
  without_payload_def empty_hash_def no_faults_def

section \<open>The persistence handler\<close>

text \<open>
  C6.  On an existing record, when no store call fails, \<open>persistDocument\<close> branches on the
  current status: VALIDATED is finalised as PERSISTED and the binary payload is deleted;
  VALIDATION_FAILED is finalised as FAILED and the payload is kept; on any other status
  nothing is written, deleted or emitted.
\<close>

theorem persistDocument_branches:
  assumes "no_faults w" and "docs w k \<noteq> empty_hash"
  shows "(h_status (docs w k) = Some VALIDATED \<longrightarrow>
            fst (persistDocument k w) = Inr ()
            \<and> h_status (docs (snd (persistDocument k w)) k) = Some PERSISTED
            \<and> contents (snd (persistDocument k w)) k = None
            \<and> events_of (persistDocument k) w
                = [HSET k [Status PERSISTED, UpdatedAt (clock w)], DEL k])
       \<and> (h_status (docs w k) = Some VALIDATION_FAILED \<longrightarrow>
            fst (persistDocument k w) = Inr ()
            \<and> h_status (docs (snd (persistDocument k w)) k) = Some FAILED
            \<and> contents (snd (persistDocument k w)) = contents w
            \<and> events_of (persistDocument k) w = [HSET k [Status FAILED, UpdatedAt (clock w)]])
       \<and> (h_status (docs w k) \<noteq> Some VALIDATED \<and> h_status (docs w k) \<noteq> Some VALIDATION_FAILED \<longrightarrow>
            fst (persistDocument k w) = Inr ()
            \<and> docs (snd (persistDocument k w)) = docs w
            \<and> contents (snd (persistDocument k w)) = contents w
            \<and> streams (snd (persistDocument k w)) = streams w
            \<and> events_of (persistDocument k) w = [])"
proof (intro conjI impI)
  assume v: "h_status (docs w k) = Some VALIDATED"
  from persist_validated [OF assms(1) v]
  show "fst (persistDocument k w) = Inr ()"
    and "h_status (docs (snd (persistDocument k w)) k) = Some PERSISTED"
    and "contents (snd (persistDocument k w)) k = None"
    and "events_of (persistDocument k) w = [HSET k [Status PERSISTED, UpdatedAt (clock w)], DEL k]"
    by simp_all
next
  assume f: "h_status (docs w k) = Some VALIDATION_FAILED"
  from persist_validation_failed [OF assms(1) f]
  show "fst (persistDocument k w) = Inr ()"
    and "h_status (docs (snd (persistDocument k w)) k) = Some FAILED"
    and "contents (snd (persistDocument k w)) = contents w"
    and "events_of (persistDocument k) w = [HSET k [Status FAILED, UpdatedAt (clock w)]]"
    by simp_all
next
  assume o: "h_status (docs w k) \<noteq> Some VALIDATED \<and> h_status (docs w k) \<noteq> Some VALIDATION_FAILED"
  then have r: "persistDocument k w = (Inr (), w\<lparr>faults := tl (faults w)\<rparr>)"
    by (simp add: persist_other_status)
  from r show "fst (persistDocument k w) = Inr ()"
    and "docs (snd (persistDocument k w)) = docs w"
    and "contents (snd (persistDocument k w)) = contents w"
    and "streams (snd (persistDocument k w)) = streams w"
    and "events_of (persistDocument k) w = []"
    by (simp_all add: events_of_def)
qed

theorem persistDocument_branches_witness:
  "no_faults (with_doc (uploaded_hash\<lparr>h_status := Some VALIDATED\<rparr>) uploaded_world)
   \<and> contents (snd (persistDocument ''doc1''
         (with_doc (uploaded_hash\<lparr>h_status := Some VALIDATED\<rparr>) uploaded_world))) ''doc1'' = None
   \<and> h_status (docs (snd (persistDocument ''doc1''
         (with_doc (uploaded_hash\<lparr>h_status := Some VALIDATED\<rparr>) uploaded_world))) ''doc1'')
       = Some PERSISTED
   \<and> h_status (docs (snd (persistDocument ''doc1''
         (with_doc (uploaded_hash\<lparr>h_status := Some VALIDATION_FAILED\<rparr>) uploaded_world))) ''doc1'')
       = Some FAILED
   \<and> contents (snd (persistDocument ''doc1''
         (with_doc (uploaded_hash\<lparr>h_status := Some VALIDATION_FAILED\<rparr>) uploaded_world))) ''doc1''
       = Some ''%PDF-1.4''
   \<and> events_of (persistDocument ''doc1'') uploaded_world = []"
  using persistDocument_branches
      [of "with_doc (uploaded_hash\<lparr>h_status := Some VALIDATED\<rparr>) uploaded_world" "''doc1''"]
    persistDocument_branches
      [of "with_doc (uploaded_hash\<lparr>h_status := Some VALIDATION_FAILED\<rparr>) uploaded_world" "''doc1''"]
    persistDocument_branches [of uploaded_world "''doc1''"]
  by (simp add: world_defs)

section \<open>The extraction and validation handler\<close>

text \<open>
  C5.  When the handler reaches the checks (record present, recognised text non-empty) and
  no store or broker call fails: if at least one check fails it stores all the messages
  of the validator, sets VALIDATION_FAILED and appends an entry tagged VALIDATION_FAILED
  to \<open>validation_queue\<close>, and nothing to the dead-letter topic; if all checks pass it sets
  VALIDATED and appends an entry tagged VALIDATED.
\<close>

theorem validation_outcomes:
  assumes "no_faults w" and "docs w k \<noteq> empty_hash"
    and "h_ocrResult (docs w k) = Some ocr" and "ocr_text ocr \<noteq> []"
  shows "(validateInvoiceMetadata (extractInvoiceMetadata (ocr_text ocr)) \<noteq> [] \<longrightarrow>
            fst (processDocumentForValidation k w) = Inr ()
            \<and> h_validationErrors (docs (snd (processDocumentForValidation k w)) k)
                = Some (validateInvoiceMetadata (extractInvoiceMetadata (ocr_text ocr)))
            \<and> h_status (docs (snd (processDocumentForValidation k w)) k) = Some VALIDATION_FAILED
            \<and> events_of (processDocumentForValidation k) w =
                [HSET k [Status VALIDATION_PENDING, UpdatedAt (clock w)],
                 HSET k [ExtractedMetadata (stringify_metadata (extractInvoiceMetadata (ocr_text ocr))),
                         ValidationErrors
                           (validateInvoiceMetadata (extractInvoiceMetadata (ocr_text ocr))),
                         Status VALIDATION_FAILED, UpdatedAt (clock w)],
                 XADD ''validation_queue'' [''documentId'', k, ''status'', ''VALIDATION_FAILED'']]
            \<and> streams (snd (processDocumentForValidation k w)) ''validation_queue''
                = streams w ''validation_queue''
                  @ [[''documentId'', k, ''status'', ''VALIDATION_FAILED'']]
            \<and> streams (snd (processDocumentForValidation k w)) ''dlq_validation_failed''
                = streams w ''dlq_validation_failed'')
       \<and> (validateInvoiceMetadata (extractInvoiceMetadata (ocr_text ocr)) = [] \<longrightarrow>
            fst (processDocumentForValidation k w) = Inr ()
            \<and> h_status (docs (snd (processDocumentForValidation k w)) k) = Some VALIDATED
            \<and> events_of (processDocumentForValidation k) w =
                [HSET k [Status VALIDATION_PENDING, UpdatedAt (clock w)],
                 HSET k [ExtractedMetadata (stringify_metadata (extractInvoiceMetadata (ocr_text ocr))),
                         Status VALIDATED, UpdatedAt (clock w)],
                 XADD ''validation_queue'' [''documentId'', k, ''status'', ''VALIDATED'']]
            \<and> streams (snd (processDocumentForValidation k w)) ''validation_queue''
                = streams w ''validation_queue'' @ [[''documentId'', k, ''status'', ''VALIDATED'']]
            \<and> streams (snd (processDocumentForValidation k w)) ''dlq_validation_failed''
                = streams w ''dlq_validation_failed'')"
proof (intro conjI impI)
  assume e: "validateInvoiceMetadata (extractInvoiceMetadata (ocr_text ocr)) \<noteq> []"
  note r = Validation_failed [OF assms e]
  show "fst (processDocumentForValidation k w) = Inr ()" by (rule r(1))
  show "h_validationErrors (docs (snd (processDocumentForValidation k w)) k)
          = Some (validateInvoiceMetadata (extractInvoiceMetadata (ocr_text ocr)))"
    by (simp add: r(3))
  show "h_status (docs (snd (processDocumentForValidation k w)) k) = Some VALIDATION_FAILED"
    by (simp add: r(3))
  show "events_of (processDocumentForValidation k) w =
                [HSET k [Status VALIDATION_PENDING, UpdatedAt (clock w)],
                 HSET k [ExtractedMetadata (stringify_metadata (extractInvoiceMetadata (ocr_text ocr))),
                         ValidationErrors
                           (validateInvoiceMetadata (extractInvoiceMetadata (ocr_text ocr))),
                         Status VALIDATION_FAILED, UpdatedAt (clock w)],
                 XADD ''validation_queue'' [''documentId'', k, ''status'', ''VALIDATION_FAILED'']]"
    by (rule r(2))
  show "streams (snd (processDocumentForValidation k w)) ''validation_queue''
                = streams w ''validation_queue''
                  @ [[''documentId'', k, ''status'', ''VALIDATION_FAILED'']]"
    by (simp add: r(4))
  show "streams (snd (processDocumentForValidation k w)) ''dlq_validation_failed''
                = streams w ''dlq_validation_failed''"
    by (simp add: r(4))
next
  assume e: "validateInvoiceMetadata (extractInvoiceMetadata (ocr_text ocr)) = []"
  note r = Validation_passed [OF assms e]
  show "fst (processDocumentForValidation k w) = Inr ()" by (rule r(1))
  show "h_status (docs (snd (processDocumentForValidation k w)) k) = Some VALIDATED"
    by (simp add: r(3))
  show "events_of (processDocumentForValidation k) w =
                [HSET k [Status VALIDATION_PENDING, UpdatedAt (clock w)],
                 HSET k [ExtractedMetadata (stringify_metadata (extractInvoiceMetadata (ocr_text ocr))),
                         Status VALIDATED, UpdatedAt (clock w)],
                 XADD ''validation_queue'' [''documentId'', k, ''status'', ''VALIDATED'']]"
    by (rule r(2))
  show "streams (snd (processDocumentForValidation k w)) ''validation_queue''
                = streams w ''validation_queue'' @ [[''documentId'', k, ''status'', ''VALIDATED'']]"
    by (simp add: r(4))
  show "streams (snd (processDocumentForValidation k w)) ''dlq_validation_failed''
                = streams w ''dlq_validation_failed''"
    by (simp add: r(4))
qed

text \<open>The two sample invoices under the validator.\<close>

lemma sample_valid: "validateInvoiceMetadata (extractInvoiceMetadata sample_lines) = []"
  by (simp add: sample_extracted validate_messages sample_date_ok)

lemma no_customer_invalid:
  "validateInvoiceMetadata (extractInvoiceMetadata sample_no_customer)
     = [''Customer Name is missing or empty.'']"
  by (simp add: no_customer_extracted validate_messages sample_date_ok)

lemma sample_nonempty: "sample_lines \<noteq> []" "sample_no_customer \<noteq> []"
  by (simp_all add: sample_lines_def sample_no_customer_def)

theorem validation_outcomes_witness:
  "no_faults (with_doc (recognised_hash sample_no_customer) uploaded_world)
   \<and> h_status (docs (snd (processDocumentForValidation ''doc1''
         (with_doc (recognised_hash sample_no_customer) uploaded_world))) ''doc1'')
       = Some VALIDATION_FAILED
   \<and> h_validationErrors (docs (snd (processDocumentForValidation ''doc1''
         (with_doc (recognised_hash sample_no_customer) uploaded_world))) ''doc1'')
       = Some [''Customer Name is missing or empty.'']
   \<and> topics_written (events_of (processDocumentForValidation ''doc1'')
         (with_doc (recognised_hash sample_no_customer) uploaded_world)) = [''validation_queue'']
   \<and> h_status (docs (snd (processDocumentForValidation ''doc1''
         (with_doc (recognised_hash sample_lines) uploaded_world))) ''doc1'')
       = Some VALIDATED
   \<and> streams (snd (processDocumentForValidation ''doc1''
         (with_doc (recognised_hash sample_lines) uploaded_world))) ''validation_queue''
       = [[''documentId'', ''doc1'', ''status'', ''VALIDATED'']]"
  using validation_outcomes
      [of "with_doc (recognised_hash sample_no_customer) uploaded_world" "''doc1''"
          "\<lparr>ocr_text = sample_no_customer, ocr_confidence = 98 / 100, ocr_language = ''en''\<rparr>"]
    validation_outcomes
      [of "with_doc (recognised_hash sample_lines) uploaded_world" "''doc1''"
          "\<lparr>ocr_text = sample_lines, ocr_confidence = 98 / 100, ocr_language = ''en''\<rparr>"]
  by (simp add: world_defs sample_valid no_customer_invalid sample_nonempty topics_written_def)

text \<open>An amount beyond the double range is stored as null.\<close>

lemma stringify_infinite:
  "totalAmount m = Some PosInf \<Longrightarrow> s_totalAmount (stringify_metadata m) = Some JNull"
  by (simp add: stringify_metadata_def)

text \<open>
  C10.  When the handler reaches the checks and no store or broker call fails, the
  extracted metadata, complete or partial, is written to the record's
  \<open>extractedMetadata\<close> field on both outcomes, as \<open>JSON.stringify\<close> renders it; when
  validation fails the same write stores it together with the validation errors.
\<close>

theorem extracted_metadata_stored:
  assumes "no_faults w" and "docs w k \<noteq> empty_hash"
    and "h_ocrResult (docs w k) = Some ocr" and "ocr_text ocr \<noteq> []"
  shows "h_extractedMetadata (docs (snd (processDocumentForValidation k w)) k)
           = Some (stringify_metadata (extractInvoiceMetadata (ocr_text ocr)))
       \<and> (validateInvoiceMetadata (extractInvoiceMetadata (ocr_text ocr)) \<noteq> [] \<longrightarrow>
            h_validationErrors (docs (snd (processDocumentForValidation k w)) k)
              = Some (validateInvoiceMetadata (extractInvoiceMetadata (ocr_text ocr)))
            \<and> HSET k [ExtractedMetadata
                         (stringify_metadata (extractInvoiceMetadata (ocr_text ocr))),
                       ValidationErrors
                         (validateInvoiceMetadata (extractInvoiceMetadata (ocr_text ocr))),
                       Status VALIDATION_FAILED, UpdatedAt (clock w)]
                \<in> set (events_of (processDocumentForValidation k) w))
       \<and> (validateInvoiceMetadata (extractInvoiceMetadata (ocr_text ocr)) = [] \<longrightarrow>
            HSET k [ExtractedMetadata
                      (stringify_metadata (extractInvoiceMetadata (ocr_text ocr))),
                    Status VALIDATED, UpdatedAt (clock w)]
              \<in> set (events_of (processDocumentForValidation k) w))"
proof (cases "validateInvoiceMetadata (extractInvoiceMetadata (ocr_text ocr)) = []")
  case True
  from Validation_passed(2,3) [OF assms True] True show ?thesis by simp
next
  case False
  from Validation_failed(2,3) [OF assms False] False show ?thesis by simp
qed

theorem extracted_metadata_stored_witness:
  "no_faults (with_doc (recognised_hash sample_no_customer) uploaded_world)
   \<and> h_extractedMetadata (docs (snd (processDocumentForValidation ''doc1''
         (with_doc (recognised_hash sample_no_customer) uploaded_world))) ''doc1'')
       = Some \<lparr>s_invoiceNumber = Some ''INV-2025-001'', s_customerName = None,
               s_totalAmount = Some (JNum 123), s_currency = Some ''USD'',
               s_issueDate = Some ''2025-07-08''\<rparr>
   \<and> h_validationErrors (docs (snd (processDocumentForValidation ''doc1''
         (with_doc (recognised_hash sample_no_customer) uploaded_world))) ''doc1'')
       = Some [''Customer Name is missing or empty.'']"
  using extracted_metadata_stored
      [of "with_doc (recognised_hash sample_no_customer) uploaded_world" "''doc1''"
          "\<lparr>ocr_text = sample_no_customer, ocr_confidence = 98 / 100, ocr_language = ''en''\<rparr>"]
  by (simp add: world_defs no_customer_extracted validate_messages sample_date_ok
      sample_nonempty stringify_metadata_def)

section \<open>Malformed queue entries\<close>




section \<open>Failure of the initial fetch\<close>

text \<open>
  C9.  If the initial \<open>hgetall\<close> of a handler rejects, the handler returns normally and
  the world is unchanged (but for the consumed fault): no status is written, nothing is
  dead-lettered.  Conversely, whenever one of the three handlers carries out any command,
  the fetch did not reject and the record is present.
\<close>

theorem fetch_failure_is_silent:
  "(faults w = Some e # fs \<longrightarrow>
      processDocumentForOCR k w = (Inr (), w\<lparr>faults := fs\<rparr>)
      \<and> processDocumentForValidation k w = (Inr (), w\<lparr>faults := fs\<rparr>)
      \<and> persistDocument k w = (Inr (), w\<lparr>faults := fs\<rparr>))
   \<and> (events_of (processDocumentForOCR k) w \<noteq> []
       \<or> events_of (processDocumentForValidation k) w \<noteq> []
       \<or> events_of (persistDocument k) w \<noteq> [] \<longrightarrow>
      (faults w = [] \<or> hd (faults w) = None) \<and> docs w k \<noteq> empty_hash)"
proof (intro conjI impI)
  assume f: "faults w = Some e # fs"
  from fetch_fails [OF f]
  show "processDocumentForOCR k w = (Inr (), w\<lparr>faults := fs\<rparr>)"
    and "processDocumentForValidation k w = (Inr (), w\<lparr>faults := fs\<rparr>)"
    and "persistDocument k w = (Inr (), w\<lparr>faults := fs\<rparr>)"
    by simp_all
next
  assume ev: "events_of (processDocumentForOCR k) w \<noteq> []
       \<or> events_of (processDocumentForValidation k) w \<noteq> []
       \<or> events_of (persistDocument k) w \<noteq> []"
  show "faults w = [] \<or> hd (faults w) = None"
  proof (rule ccontr)
    assume "\<not> (faults w = [] \<or> hd (faults w) = None)"
    then obtain e' fs' where f: "faults w = Some e' # fs'"
      by (cases "faults w") auto
    from fetch_fails [OF f, of k] have
      "events_of (processDocumentForOCR k) w = []"
      "events_of (processDocumentForValidation k) w = []"
      "events_of (persistDocument k) w = []"
      by (simp_all add: events_of_def)
    with ev show False by simp
  qed
  show "docs w k \<noteq> empty_hash"
  proof
    assume a: "docs w k = empty_hash"
    from record_absent [OF a] have
      "events_of (processDocumentForOCR k) w = []"
      "events_of (processDocumentForValidation k) w = []"
      "events_of (persistDocument k) w = []"
      by (simp_all add: events_of_def)
    with ev show False by simp
  qed
qed

theorem fetch_failure_is_silent_witness:
  "faults (uploaded_world\<lparr>faults := [Some ''ECONNRESET'']\<rparr>) = Some ''ECONNRESET'' # []
   \<and> processDocumentForOCR ''doc1'' (uploaded_world\<lparr>faults := [Some ''ECONNRESET'']\<rparr>)
       = (Inr (), uploaded_world)
   \<and> persistDocument ''doc1'' (uploaded_world\<lparr>faults := [Some ''ECONNRESET'']\<rparr>)
       = (Inr (), uploaded_world)
   \<and> events_of (processDocumentForOCR ''doc1'') (without_payload uploaded_world) \<noteq> []
   \<and> docs (without_payload uploaded_world) ''doc1'' \<noteq> empty_hash"
  using fetch_failure_is_silent
      [of "uploaded_world\<lparr>faults := [Some ''ECONNRESET'']\<rparr>" "''ECONNRESET''" "[]" "''doc1''"]
    fetch_failure_is_silent [of "without_payload uploaded_world" "''ECONNRESET''" "[]" "''doc1''"]
    OCR_no_payload(2) [of "without_payload uploaded_world" "''doc1''"]
  by (simp add: world_defs)

section \<open>Absent record, absent payload\<close>

text \<open>
  Against C4 as stated: with the record present and its payload absent, the recognition
  handler does not return silently; it sets OCR_FAILED and appends a dead-letter entry.
\<close>

theorem missing_payload_counterexample:
  "docs (without_payload uploaded_world) ''doc1'' \<noteq> empty_hash
   \<and> contents (without_payload uploaded_world) ''doc1'' = None
   \<and> events_of (processDocumentForOCR ''doc1'') (without_payload uploaded_world)
       = [HSET ''doc1'' [Status OCR_FAILED, UpdatedAt 1],
          XADD ''dlq_ocr_failed''
            [''documentId'', ''doc1'', ''error'',
             ''Original content not found for document: doc1'']]"
  using OCR_no_payload(2) [of "without_payload uploaded_world" "''doc1''"]
  by (simp add: world_defs)

text \<open>
  C4, amended.  When the record is absent, each of the three handlers returns without
  carrying out any command, whatever fails: no write, no dead-letter entry, nothing raised.
  When the record is present but its payload is absent (and no store or broker call
  fails), the recognition handler returns after setting OCR_FAILED and appending the
  document id and the error message to \<open>dlq_ocr_failed\<close>.
\<close>

theorem absent_record_or_payload:
  "(docs w k = empty_hash \<longrightarrow>
      fst (processDocumentForOCR k w) = Inr () \<and> events_of (processDocumentForOCR k) w = []
      \<and> fst (processDocumentForValidation k w) = Inr ()
      \<and> events_of (processDocumentForValidation k) w = []
      \<and> fst (persistDocument k w) = Inr () \<and> events_of (persistDocument k) w = [])
   \<and> (no_faults w \<and> docs w k \<noteq> empty_hash \<and> contents w k = None \<longrightarrow>
      fst (processDocumentForOCR k w) = Inr ()
      \<and> events_of (processDocumentForOCR k) w
          = [HSET k [Status OCR_FAILED, UpdatedAt (clock w)],
             XADD ''dlq_ocr_failed''
               [''documentId'', k, ''error'', ''Original content not found for document: '' @ k]])"
proof (intro conjI impI)
  assume a: "docs w k = empty_hash"
  from record_absent [OF a]
  show "fst (processDocumentForOCR k w) = Inr ()"
    and "events_of (processDocumentForOCR k) w = []"
    and "fst (processDocumentForValidation k w) = Inr ()"
    and "events_of (processDocumentForValidation k) w = []"
    and "fst (persistDocument k w) = Inr ()"
    and "events_of (persistDocument k) w = []"
    by (simp_all add: events_of_def)
next
  assume a: "no_faults w \<and> docs w k \<noteq> empty_hash \<and> contents w k = None"
  then have n: "no_faults w" and d: "docs w k \<noteq> empty_hash" and c: "contents w k = None"
    by simp_all
  from OCR_no_payload [OF n d c]
  show "fst (processDocumentForOCR k w) = Inr ()"
    and "events_of (processDocumentForOCR k) w
          = [HSET k [Status OCR_FAILED, UpdatedAt (clock w)],
             XADD ''dlq_ocr_failed''
               [''documentId'', k, ''error'', ''Original content not found for document: '' @ k]]"
    by simp_all
qed

theorem absent_record_or_payload_witness:
  "docs uploaded_world ''doc2'' = empty_hash
   \<and> fst (processDocumentForOCR ''doc2'' uploaded_world) = Inr ()
   \<and> events_of (processDocumentForOCR ''doc2'') uploaded_world = []
   \<and> events_of (processDocumentForValidation ''doc2'') uploaded_world = []
   \<and> events_of (persistDocument ''doc2'') uploaded_world = []
   \<and> no_faults (without_payload uploaded_world)
   \<and> docs (without_payload uploaded_world) ''doc1'' \<noteq> empty_hash
   \<and> contents (without_payload uploaded_world) ''doc1'' = None
   \<and> topics_written (events_of (processDocumentForOCR ''doc1'') (without_payload uploaded_world))
       = [''dlq_ocr_failed'']"
  using absent_record_or_payload [of uploaded_world "''doc2''"]
    absent_record_or_payload [of "without_payload uploaded_world" "''doc1''"]
  by (simp add: world_defs topics_written_def)

section \<open>Preconditions of the handlers\<close>

text \<open>
  Against C2 as stated: on a record whose status is PERSISTED, not UPLOADED, the
  recognition handler runs to the end; it writes OCR_PENDING and OCR_COMPLETED and appends
  to the downstream topic.
\<close>

theorem status_not_checked_counterexample:
  "docs (with_doc (uploaded_hash\<lparr>h_status := Some PERSISTED\<rparr>) uploaded_world) ''doc1''
     \<noteq> empty_hash
   \<and> h_status (docs (with_doc (uploaded_hash\<lparr>h_status := Some PERSISTED\<rparr>) uploaded_world)
        ''doc1'') = Some PERSISTED
   \<and> status_writes (events_of (processDocumentForOCR ''doc1'')
        (with_doc (uploaded_hash\<lparr>h_status := Some PERSISTED\<rparr>) uploaded_world))
       = [OCR_PENDING, OCR_COMPLETED]
   \<and> topics_written (events_of (processDocumentForOCR ''doc1'')
        (with_doc (uploaded_hash\<lparr>h_status := Some PERSISTED\<rparr>) uploaded_world))
       = [''ocr_result_queue'']"
  using OCR_success(2)
      [of "with_doc (uploaded_hash\<lparr>h_status := Some PERSISTED\<rparr>) uploaded_world" "''doc1''"
          "''%PDF-1.4''"]
  by (simp add: world_defs status_writes_def topics_written_def)

text \<open>
  C2, amended.  The recognition and the extraction/validation handler do not look at the
  current status; they refuse to proceed only when the upstream data is missing.  Whatever
  fails, when the payload is absent all the recognition handler carries out is an initial
  part of its error path (the write of OCR_FAILED, then one dead-letter entry), and when the
  recognition result or its text is missing all the validation handler carries out is an
  initial part of its error path (the write of VALIDATION_FAILED, then one dead-letter
  entry): no transform, no other field, no other status, nothing to the downstream topic.
  When moreover the record is present and no call fails, exactly those two commands are
  carried out, with the handler's own error message.  When the upstream data is present
  (record, payload; record, non-empty recognised text) and no call fails, the two handlers
  run to the end whatever the current status is.  On a status other than VALIDATED and
  VALIDATION_FAILED the persistence handler returns without any command.
\<close>

theorem precondition_failures:
  "(contents w k = None \<longrightarrow>
      (\<exists>e. failure_run k OCR_FAILED ''dlq_ocr_failed'' (clock w) e
             (events_of (processDocumentForOCR k) w)))
   \<and> (h_ocrResult (docs w k) = None
        \<or> (\<exists>ocr. h_ocrResult (docs w k) = Some ocr \<and> ocr_text ocr = []) \<longrightarrow>
      (\<exists>e. failure_run k VALIDATION_FAILED ''dlq_validation_failed'' (clock w) e
             (events_of (processDocumentForValidation k) w)))
   \<and> (h_status (docs w k) \<noteq> Some VALIDATED \<and> h_status (docs w k) \<noteq> Some VALIDATION_FAILED \<longrightarrow>
      fst (persistDocument k w) = Inr () \<and> events_of (persistDocument k) w = [])
   \<and> (no_faults w \<and> docs w k \<noteq> empty_hash \<and> contents w k = None \<longrightarrow>
      fst (processDocumentForOCR k w) = Inr ()
      \<and> events_of (processDocumentForOCR k) w
          = [HSET k [Status OCR_FAILED, UpdatedAt (clock w)],
             XADD ''dlq_ocr_failed''
               [''documentId'', k, ''error'', ''Original content not found for document: '' @ k]])
   \<and> (no_faults w \<and> docs w k \<noteq> empty_hash
        \<and> (h_ocrResult (docs w k) = None
            \<or> (\<exists>ocr. h_ocrResult (docs w k) = Some ocr \<and> ocr_text ocr = [])) \<longrightarrow>
      fst (processDocumentForValidation k w) = Inr ()
      \<and> events_of (processDocumentForValidation k) w
          = [HSET k [Status VALIDATION_FAILED, UpdatedAt (clock w)],
             XADD ''dlq_validation_failed''
               [''documentId'', k, ''error'',
                ''OCR result missing for document '' @ k @ ''. Cannot validate.'']])
   \<and> (no_faults w \<and> docs w k \<noteq> empty_hash \<and> contents w k = Some buf \<longrightarrow>
      fst (processDocumentForOCR k w) = Inr ()
      \<and> events_of (processDocumentForOCR k) w
          = [HSET k [Status OCR_PENDING, UpdatedAt (clock w)],
             HSET k [OcrResult (simulateOCR buf), Status OCR_COMPLETED, UpdatedAt (clock w)],
             XADD ''ocr_result_queue'' [''documentId'', k, ''status'', ''OCR_COMPLETED'']])
   \<and> (no_faults w \<and> docs w k \<noteq> empty_hash \<and> h_ocrResult (docs w k) = Some ocr
        \<and> ocr_text ocr \<noteq> [] \<longrightarrow>
      fst (processDocumentForValidation k w) = Inr ()
      \<and> events_of (processDocumentForValidation k) w
          = [HSET k [Status VALIDATION_PENDING, UpdatedAt (clock w)],
             (if validateInvoiceMetadata (extractInvoiceMetadata (ocr_text ocr)) = []
              then HSET k [ExtractedMetadata
                             (stringify_metadata (extractInvoiceMetadata (ocr_text ocr))),
                           Status VALIDATED, UpdatedAt (clock w)]
              else HSET k [ExtractedMetadata
                             (stringify_metadata (extractInvoiceMetadata (ocr_text ocr))),
                           ValidationErrors
                             (validateInvoiceMetadata (extractInvoiceMetadata (ocr_text ocr))),
                           Status VALIDATION_FAILED, UpdatedAt (clock w)]),
             XADD ''validation_queue''
               [''documentId'', k, ''status'',
                if validateInvoiceMetadata (extractInvoiceMetadata (ocr_text ocr)) = []
                then ''VALIDATED'' else ''VALIDATION_FAILED'']])"
proof (intro conjI impI)
  assume c: "contents w k = None"
  then show "\<exists>e. failure_run k OCR_FAILED ''dlq_ocr_failed'' (clock w) e
             (events_of (processDocumentForOCR k) w)"
    by (rule OCR_no_payload_run)
next
  assume o: "h_ocrResult (docs w k) = None
        \<or> (\<exists>ocr. h_ocrResult (docs w k) = Some ocr \<and> ocr_text ocr = [])"
  then show "\<exists>e. failure_run k VALIDATION_FAILED ''dlq_validation_failed'' (clock w) e
             (events_of (processDocumentForValidation k) w)"
    by (rule Validation_no_text_run)
next
  assume s: "h_status (docs w k) \<noteq> Some VALIDATED \<and> h_status (docs w k) \<noteq> Some VALIDATION_FAILED"
  then have "persistDocument k w = (Inr (), w\<lparr>faults := tl (faults w)\<rparr>)"
    by (simp add: persist_other_status)
  then show "fst (persistDocument k w) = Inr ()" and "events_of (persistDocument k) w = []"
    by (simp_all add: events_of_def)
next
  assume a: "no_faults w \<and> docs w k \<noteq> empty_hash \<and> contents w k = None"
  then have n: "no_faults w" and d: "docs w k \<noteq> empty_hash" and c: "contents w k = None"
    by simp_all
  from OCR_no_payload [OF n d c]
  show "fst (processDocumentForOCR k w) = Inr ()"
    and "events_of (processDocumentForOCR k) w
          = [HSET k [Status OCR_FAILED, UpdatedAt (clock w)],
             XADD ''dlq_ocr_failed''
               [''documentId'', k, ''error'', ''Original content not found for document: '' @ k]]"
    by simp_all
next
  assume a: "no_faults w \<and> docs w k \<noteq> empty_hash
        \<and> (h_ocrResult (docs w k) = None
            \<or> (\<exists>ocr. h_ocrResult (docs w k) = Some ocr \<and> ocr_text ocr = []))"
  then have n: "no_faults w" and d: "docs w k \<noteq> empty_hash"
    and o: "h_ocrResult (docs w k) = None
            \<or> (\<exists>ocr. h_ocrResult (docs w k) = Some ocr \<and> ocr_text ocr = [])"
    by simp_all
  from Validation_no_text [OF n d o]
  show "fst (processDocumentForValidation k w) = Inr ()"
    and "events_of (processDocumentForValidation k) w
          = [HSET k [Status VALIDATION_FAILED, UpdatedAt (clock w)],
             XADD ''dlq_validation_failed''
               [''documentId'', k, ''error'',
                ''OCR result missing for document '' @ k @ ''. Cannot validate.'']]"
    by simp_all
next
  assume a: "no_faults w \<and> docs w k \<noteq> empty_hash \<and> contents w k = Some buf"
  then have n: "no_faults w" and d: "docs w k \<noteq> empty_hash" and c: "contents w k = Some buf"
    by simp_all
  from OCR_success [OF n d c]
  show "fst (processDocumentForOCR k w) = Inr ()"
    and "events_of (processDocumentForOCR k) w
          = [HSET k [Status OCR_PENDING, UpdatedAt (clock w)],
             HSET k [OcrResult (simulateOCR buf), Status OCR_COMPLETED, UpdatedAt (clock w)],
             XADD ''ocr_result_queue'' [''documentId'', k, ''status'', ''OCR_COMPLETED'']]"
    by simp_all
next
  assume a: "no_faults w \<and> docs w k \<noteq> empty_hash \<and> h_ocrResult (docs w k) = Some ocr
        \<and> ocr_text ocr \<noteq> []"
  then have n: "no_faults w" and d: "docs w k \<noteq> empty_hash"
    and o: "h_ocrResult (docs w k) = Some ocr" and t: "ocr_text ocr \<noteq> []"
    by simp_all
  show "fst (processDocumentForValidation k w) = Inr ()"
  proof (cases "validateInvoiceMetadata (extractInvoiceMetadata (ocr_text ocr)) = []")
    case True
    from Validation_passed(1) [OF n d o t True] show ?thesis .
  next
    case False
    from Validation_failed(1) [OF n d o t False] show ?thesis .
  qed
  show "events_of (processDocumentForValidation k) w
          = [HSET k [Status VALIDATION_PENDING, UpdatedAt (clock w)],
             (if validateInvoiceMetadata (extractInvoiceMetadata (ocr_text ocr)) = []
              then HSET k [ExtractedMetadata
                             (stringify_metadata (extractInvoiceMetadata (ocr_text ocr))),
                           Status VALIDATED, UpdatedAt (clock w)]
              else HSET k [ExtractedMetadata
                             (stringify_metadata (extractInvoiceMetadata (ocr_text ocr))),
                           ValidationErrors
                             (validateInvoiceMetadata (extractInvoiceMetadata (ocr_text ocr))),
                           Status VALIDATION_FAILED, UpdatedAt (clock w)]),
             XADD ''validation_queue''
               [''documentId'', k, ''status'',
                if validateInvoiceMetadata (extractInvoiceMetadata (ocr_text ocr)) = []
                then ''VALIDATED'' else ''VALIDATION_FAILED'']]"
  proof (cases "validateInvoiceMetadata (extractInvoiceMetadata (ocr_text ocr)) = []")
    case True
    from Validation_passed(2) [OF n d o t True] True show ?thesis by simp
  next
    case False
    from Validation_failed(2) [OF n d o t False] False show ?thesis by simp
  qed
qed

theorem precondition_failures_witness:
  "no_faults (without_payload uploaded_world)
   \<and> docs (without_payload uploaded_world) ''doc1'' \<noteq> empty_hash
   \<and> contents (without_payload uploaded_world) ''doc1'' = None
   \<and> h_ocrResult (docs (without_payload uploaded_world) ''doc1'') = None
   \<and> h_status (docs (without_payload uploaded_world) ''doc1'') = Some UPLOADED
   \<and> events_of (processDocumentForOCR ''doc1'') (without_payload uploaded_world)
       = [HSET ''doc1'' [Status OCR_FAILED, UpdatedAt 1],
          XADD ''dlq_ocr_failed''
            [''documentId'', ''doc1'', ''error'',
             ''Original content not found for document: doc1'']]
   \<and> events_of (processDocumentForValidation ''doc1'') (without_payload uploaded_world)
       = [HSET ''doc1'' [Status VALIDATION_FAILED, UpdatedAt 1],
          XADD ''dlq_validation_failed''
            [''documentId'', ''doc1'', ''error'',
             ''OCR result missing for document doc1. Cannot validate.'']]
   \<and> events_of (persistDocument ''doc1'') (without_payload uploaded_world) = []
   \<and> h_status (docs (with_doc (uploaded_hash\<lparr>h_status := Some PERSISTED\<rparr>) uploaded_world)
        ''doc1'') = Some PERSISTED
   \<and> contents (with_doc (uploaded_hash\<lparr>h_status := Some PERSISTED\<rparr>) uploaded_world) ''doc1''
       = Some ''%PDF-1.4''
   \<and> events_of (processDocumentForOCR ''doc1'')
        (with_doc (uploaded_hash\<lparr>h_status := Some PERSISTED\<rparr>) uploaded_world)
       = [HSET ''doc1'' [Status OCR_PENDING, UpdatedAt 1],
          HSET ''doc1'' [OcrResult (simulateOCR ''%PDF-1.4''), Status OCR_COMPLETED, UpdatedAt 1],
          XADD ''ocr_result_queue'' [''documentId'', ''doc1'', ''status'', ''OCR_COMPLETED'']]
   \<and> topics_written (events_of (processDocumentForValidation ''doc1'')
        (with_doc ((recognised_hash sample_lines)\<lparr>h_status := Some FAILED\<rparr>) uploaded_world))
       = [''validation_queue'']"
  using precondition_failures
      [of "without_payload uploaded_world" "''doc1''" "''%PDF-1.4''"
          "\<lparr>ocr_text = sample_lines, ocr_confidence = 98 / 100, ocr_language = ''en''\<rparr>"]
    precondition_failures
      [of "with_doc (uploaded_hash\<lparr>h_status := Some PERSISTED\<rparr>) uploaded_world" "''doc1''"
          "''%PDF-1.4''"
          "\<lparr>ocr_text = sample_lines, ocr_confidence = 98 / 100, ocr_language = ''en''\<rparr>"]
    precondition_failures
      [of "with_doc ((recognised_hash sample_lines)\<lparr>h_status := Some FAILED\<rparr>) uploaded_world"
          "''doc1''" "''%PDF-1.4''"
          "\<lparr>ocr_text = sample_lines, ocr_confidence = 98 / 100, ocr_language = ''en''\<rparr>"]
  by (simp add: world_defs sample_nonempty sample_valid topics_written_def)

section \<open>Status writes and the transition graph\<close>

text \<open>
  Against C3 as stated: on an UPLOADED record whose payload is absent the recognition
  handler writes OCR_FAILED, and UPLOADED to OCR_FAILED is not an edge of the graph.
\<close>

theorem write_off_the_graph_counterexample:
  "h_status (docs (without_payload uploaded_world) ''doc1'') = Some UPLOADED
   \<and> status_writes (events_of (processDocumentForOCR ''doc1'') (without_payload uploaded_world))
       = [OCR_FAILED]
   \<and> \<not> follows_graph UPLOADED
         (status_writes (events_of (processDocumentForOCR ''doc1'')
            (without_payload uploaded_world)))"
  using OCR_no_payload(2) [of "without_payload uploaded_world" "''doc1''"]
  by (simp add: world_defs status_writes_def edges_def)

text \<open>
  C3, amended.  Every status a handler writes, on any path and whatever fails, is a
  state reachable from UPLOADED in the transition graph.  On a run without failing calls
  that starts from the stage's expected predecessor status with the stage's input present
  (UPLOADED with a payload for recognition, OCR_COMPLETED with a non-empty recognised text
  for validation, any status for persistence) the successive writes are edges of the
  graph, starting at the current status.  The error path does not read the current status:
  all a catch block carries out, in any world, is an initial part of the write of the
  stage's failure status followed by one dead-letter entry; so when the call after the
  fetch fails, OCR_FAILED, VALIDATION_FAILED or FAILED is written from whatever status the
  record has, and when the payload deletion fails FAILED is written after PERSISTED.
\<close>

theorem writes_stay_in_graph:
  "(\<forall>s \<in> set (status_writes (events_of (processDocumentForOCR k) w)). reachable s)
   \<and> (\<forall>s \<in> set (status_writes (events_of (processDocumentForValidation k) w)). reachable s)
   \<and> (\<forall>s \<in> set (status_writes (events_of (persistDocument k) w)). reachable s)
   \<and> (no_faults w \<and> h_status (docs w k) = Some UPLOADED \<and> contents w k \<noteq> None \<longrightarrow>
        follows_graph UPLOADED (status_writes (events_of (processDocumentForOCR k) w)))
   \<and> (no_faults w \<and> h_status (docs w k) = Some OCR_COMPLETED
        \<and> (\<exists>ocr. h_ocrResult (docs w k) = Some ocr \<and> ocr_text ocr \<noteq> []) \<longrightarrow>
        follows_graph OCR_COMPLETED
          (status_writes (events_of (processDocumentForValidation k) w)))
   \<and> (no_faults w \<and> h_status (docs w k) = Some s \<longrightarrow>
        follows_graph s (status_writes (events_of (persistDocument k) w)))
   \<and> failure_run k OCR_FAILED ''dlq_ocr_failed'' (clock w) e
        (events_of (processDocumentForOCR_catch k e) w)
   \<and> failure_run k VALIDATION_FAILED ''dlq_validation_failed'' (clock w) e
        (events_of (processDocumentForValidation_catch k e) w)
   \<and> failure_run k FAILED ''dlq_persistence_failed'' (clock w) e
        (events_of (persistDocument_catch k e) w)
   \<and> (faults w = None # Some e # fs \<and> list_all (\<lambda>f. f = None) fs
        \<and> docs w k \<noteq> empty_hash \<longrightarrow>
        events_of (processDocumentForOCR k) w
          = [HSET k [Status OCR_FAILED, UpdatedAt (clock w)],
             XADD ''dlq_ocr_failed'' [''documentId'', k, ''error'', e]])
   \<and> (faults w = None # Some e # fs \<and> list_all (\<lambda>f. f = None) fs
        \<and> docs w k \<noteq> empty_hash
        \<and> (\<exists>ocr. h_ocrResult (docs w k) = Some ocr \<and> ocr_text ocr \<noteq> []) \<longrightarrow>
        events_of (processDocumentForValidation k) w
          = [HSET k [Status VALIDATION_FAILED, UpdatedAt (clock w)],
             XADD ''dlq_validation_failed'' [''documentId'', k, ''error'', e]])
   \<and> (faults w = None # Some e # fs \<and> list_all (\<lambda>f. f = None) fs
        \<and> (h_status (docs w k) = Some VALIDATED \<or> h_status (docs w k) = Some VALIDATION_FAILED)
        \<longrightarrow>
        events_of (persistDocument k) w
          = [HSET k [Status FAILED, UpdatedAt (clock w)],
             XADD ''dlq_persistence_failed'' [''documentId'', k, ''error'', e]])
   \<and> (faults w = None # None # Some e # fs \<and> list_all (\<lambda>f. f = None) fs
        \<and> h_status (docs w k) = Some VALIDATED \<longrightarrow>
        events_of (persistDocument k) w
          = [HSET k [Status PERSISTED, UpdatedAt (clock w)],
             HSET k [Status FAILED, UpdatedAt (clock w)],
             XADD ''dlq_persistence_failed'' [''documentId'', k, ''error'', e]])"
proof (intro conjI impI)
  show "\<forall>s \<in> set (status_writes (events_of (processDocumentForOCR k) w)). reachable s"
    by (rule handler_writes_reachable)
  show "\<forall>s \<in> set (status_writes (events_of (processDocumentForValidation k) w)). reachable s"
    by (rule handler_writes_reachable)
  show "\<forall>s \<in> set (status_writes (events_of (persistDocument k) w)). reachable s"
    by (rule handler_writes_reachable)
  show "failure_run k OCR_FAILED ''dlq_ocr_failed'' (clock w) e
        (events_of (processDocumentForOCR_catch k e) w)"
    by (rule catch_runs)
  show "failure_run k VALIDATION_FAILED ''dlq_validation_failed'' (clock w) e
        (events_of (processDocumentForValidation_catch k e) w)"
    by (rule catch_runs)
  show "failure_run k FAILED ''dlq_persistence_failed'' (clock w) e
        (events_of (persistDocument_catch k e) w)"
    by (rule catch_runs)
next
  assume a: "no_faults w \<and> h_status (docs w k) = Some UPLOADED \<and> contents w k \<noteq> None"
  then obtain buf where c: "contents w k = Some buf" by auto
  from a have n: "no_faults w" and d: "docs w k \<noteq> empty_hash"
    by (auto simp add: empty_hash_def)
  from OCR_success(2) [OF n d c]
  show "follows_graph UPLOADED (status_writes (events_of (processDocumentForOCR k) w))"
    by (simp add: status_writes_def edges_def)
next
  assume a: "no_faults w \<and> h_status (docs w k) = Some OCR_COMPLETED
        \<and> (\<exists>ocr. h_ocrResult (docs w k) = Some ocr \<and> ocr_text ocr \<noteq> [])"
  then obtain ocr where o: "h_ocrResult (docs w k) = Some ocr" and t: "ocr_text ocr \<noteq> []"
    by auto
  from a have n: "no_faults w" and d: "docs w k \<noteq> empty_hash"
    by (auto simp add: empty_hash_def)
  show "follows_graph OCR_COMPLETED
          (status_writes (events_of (processDocumentForValidation k) w))"
  proof (cases "validateInvoiceMetadata (extractInvoiceMetadata (ocr_text ocr)) = []")
    case True
    from Validation_passed(2) [OF n d o t True] show ?thesis
      by (simp add: status_writes_def edges_def)
  next
    case False
    from Validation_failed(2) [OF n d o t False] show ?thesis
      by (simp add: status_writes_def edges_def)
  qed
next
  assume a: "no_faults w \<and> h_status (docs w k) = Some s"
  then have n: "no_faults w" and st: "h_status (docs w k) = Some s" by simp_all
  show "follows_graph s (status_writes (events_of (persistDocument k) w))"
  proof (cases "s = VALIDATED")
    case True
    with st have v: "h_status (docs w k) = Some VALIDATED" by simp
    from persist_validated(2) [OF n v] True show ?thesis
      by (simp add: status_writes_def edges_def)
  next
    case False
    show ?thesis
    proof (cases "s = VALIDATION_FAILED")
      case True
      with st have v: "h_status (docs w k) = Some VALIDATION_FAILED" by simp
      from persist_validation_failed(2) [OF n v] True show ?thesis
        by (simp add: status_writes_def edges_def)
    next
      case nf: False
      from st False nf have "persistDocument k w = (Inr (), w\<lparr>faults := tl (faults w)\<rparr>)"
        by (simp add: persist_other_status)
      then show ?thesis by (simp add: events_of_def status_writes_def)
    qed
  qed
next
  assume a: "faults w = None # Some e # fs \<and> list_all (\<lambda>f. f = None) fs
        \<and> docs w k \<noteq> empty_hash"
  then have f: "faults w = None # Some e # fs" and l: "list_all (\<lambda>f. f = None) fs"
    and d: "docs w k \<noteq> empty_hash" by simp_all
  from OCR_first_call_fails(2) [OF f l d]
  show "events_of (processDocumentForOCR k) w
          = [HSET k [Status OCR_FAILED, UpdatedAt (clock w)],
             XADD ''dlq_ocr_failed'' [''documentId'', k, ''error'', e]]" .
next
  assume a: "faults w = None # Some e # fs \<and> list_all (\<lambda>f. f = None) fs
        \<and> docs w k \<noteq> empty_hash
        \<and> (\<exists>ocr. h_ocrResult (docs w k) = Some ocr \<and> ocr_text ocr \<noteq> [])"
  then obtain ocr where o: "h_ocrResult (docs w k) = Some ocr" and t: "ocr_text ocr \<noteq> []"
    by auto
  from a have f: "faults w = None # Some e # fs" and l: "list_all (\<lambda>f. f = None) fs"
    and d: "docs w k \<noteq> empty_hash" by simp_all
  from Validation_first_write_fails(2) [OF f l d o t]
  show "events_of (processDocumentForValidation k) w
          = [HSET k [Status VALIDATION_FAILED, UpdatedAt (clock w)],
             XADD ''dlq_validation_failed'' [''documentId'', k, ''error'', e]]" .
next
  assume a: "faults w = None # Some e # fs \<and> list_all (\<lambda>f. f = None) fs
        \<and> (h_status (docs w k) = Some VALIDATED \<or> h_status (docs w k) = Some VALIDATION_FAILED)"
  then have f: "faults w = None # Some e # fs" and l: "list_all (\<lambda>f. f = None) fs"
    and st: "h_status (docs w k) = Some VALIDATED \<or> h_status (docs w k) = Some VALIDATION_FAILED"
    by simp_all
  from persist_first_write_fails(2) [OF f l st]
  show "events_of (persistDocument k) w
          = [HSET k [Status FAILED, UpdatedAt (clock w)],
             XADD ''dlq_persistence_failed'' [''documentId'', k, ''error'', e]]" .
next
  assume a: "faults w = None # None # Some e # fs \<and> list_all (\<lambda>f. f = None) fs
        \<and> h_status (docs w k) = Some VALIDATED"
  then have f: "faults w = None # None # Some e # fs" and l: "list_all (\<lambda>f. f = None) fs"
    and st: "h_status (docs w k) = Some VALIDATED" by simp_all
  from persist_delete_fails(2) [OF f l st]
  show "events_of (persistDocument k) w
          = [HSET k [Status PERSISTED, UpdatedAt (clock w)],
             HSET k [Status FAILED, UpdatedAt (clock w)],
             XADD ''dlq_persistence_failed'' [''documentId'', k, ''error'', e]]" .
qed

theorem writes_stay_in_graph_witness:
  "no_faults uploaded_world
   \<and> h_status (docs uploaded_world ''doc1'') = Some UPLOADED
   \<and> contents uploaded_world ''doc1'' \<noteq> None
   \<and> follows_graph UPLOADED (status_writes (events_of (processDocumentForOCR ''doc1'') uploaded_world))
   \<and> h_status (docs (with_doc (recognised_hash sample_lines) uploaded_world) ''doc1'')
       = Some OCR_COMPLETED
   \<and> follows_graph OCR_COMPLETED
        (status_writes (events_of (processDocumentForValidation ''doc1'')
           (with_doc (recognised_hash sample_lines) uploaded_world)))
   \<and> follows_graph VALIDATED
        (status_writes (events_of (persistDocument ''doc1'')
           (with_doc (uploaded_hash\<lparr>h_status := Some VALIDATED\<rparr>) uploaded_world)))
   \<and> reachable OCR_FAILED
   \<and> status_writes (events_of (processDocumentForOCR ''doc1'')
        (uploaded_world\<lparr>faults := [None, Some ''ECONNRESET'']\<rparr>)) = [OCR_FAILED]
   \<and> status_writes (events_of (processDocumentForValidation ''doc1'')
        (with_doc (recognised_hash sample_lines) uploaded_world
           \<lparr>faults := [None, Some ''ECONNRESET'']\<rparr>)) = [VALIDATION_FAILED]
   \<and> status_writes (events_of (persistDocument ''doc1'')
        (with_doc (uploaded_hash\<lparr>h_status := Some VALIDATED\<rparr>) uploaded_world
           \<lparr>faults := [None, Some ''ECONNRESET'']\<rparr>)) = [FAILED]
   \<and> status_writes (events_of (persistDocument ''doc1'')
        (with_doc (uploaded_hash\<lparr>h_status := Some VALIDATED\<rparr>) uploaded_world
           \<lparr>faults := [None, None, Some ''ECONNRESET'']\<rparr>)) = [PERSISTED, FAILED]"
proof -
  have a: "no_faults uploaded_world" "h_status (docs uploaded_world ''doc1'') = Some UPLOADED"
    "contents uploaded_world ''doc1'' \<noteq> None"
    "h_status (docs (with_doc (recognised_hash sample_lines) uploaded_world) ''doc1'')
       = Some OCR_COMPLETED"
    by (simp_all add: world_defs)
  have b: "follows_graph UPLOADED
             (status_writes (events_of (processDocumentForOCR ''doc1'') uploaded_world))"
    using writes_stay_in_graph [of "''doc1''" uploaded_world UPLOADED "''ECONNRESET''" "[]"]
    by (simp add: world_defs)
  have c: "follows_graph OCR_COMPLETED
        (status_writes (events_of (processDocumentForValidation ''doc1'')
           (with_doc (recognised_hash sample_lines) uploaded_world)))"
    using writes_stay_in_graph
      [of "''doc1''" "with_doc (recognised_hash sample_lines) uploaded_world"
        OCR_COMPLETED "''ECONNRESET''" "[]"]
    by (simp add: world_defs sample_nonempty)
  have d: "follows_graph VALIDATED
        (status_writes (events_of (persistDocument ''doc1'')
           (with_doc (uploaded_hash\<lparr>h_status := Some VALIDATED\<rparr>) uploaded_world)))"
    using writes_stay_in_graph
      [of "''doc1''" "with_doc (uploaded_hash\<lparr>h_status := Some VALIDATED\<rparr>) uploaded_world"
        VALIDATED "''ECONNRESET''" "[]"]
    by (simp add: world_defs)
  have e: "status_writes (events_of (processDocumentForOCR ''doc1'')
        (uploaded_world\<lparr>faults := [None, Some ''ECONNRESET'']\<rparr>)) = [OCR_FAILED]"
    using writes_stay_in_graph
      [of "''doc1''" "uploaded_world\<lparr>faults := [None, Some ''ECONNRESET'']\<rparr>"
        UPLOADED "''ECONNRESET''" "[]"]
    by (simp add: world_defs status_writes_def)
  then have f: "reachable OCR_FAILED"
    using writes_stay_in_graph
      [of "''doc1''" "uploaded_world\<lparr>faults := [None, Some ''ECONNRESET'']\<rparr>"
        UPLOADED "''ECONNRESET''" "[]"]
    by simp
  have g: "status_writes (events_of (processDocumentForValidation ''doc1'')
        (with_doc (recognised_hash sample_lines) uploaded_world
           \<lparr>faults := [None, Some ''ECONNRESET'']\<rparr>)) = [VALIDATION_FAILED]"
    using writes_stay_in_graph
      [of "''doc1''" "with_doc (recognised_hash sample_lines) uploaded_world
           \<lparr>faults := [None, Some ''ECONNRESET'']\<rparr>" OCR_COMPLETED "''ECONNRESET''" "[]"]
    by (simp add: world_defs sample_nonempty status_writes_def)
  have h: "status_writes (events_of (persistDocument ''doc1'')
        (with_doc (uploaded_hash\<lparr>h_status := Some VALIDATED\<rparr>) uploaded_world
           \<lparr>faults := [None, Some ''ECONNRESET'']\<rparr>)) = [FAILED]"
    using writes_stay_in_graph
      [of "''doc1''" "with_doc (uploaded_hash\<lparr>h_status := Some VALIDATED\<rparr>) uploaded_world
           \<lparr>faults := [None, Some ''ECONNRESET'']\<rparr>" VALIDATED "''ECONNRESET''" "[]"]
    by (simp add: world_defs status_writes_def)
  have i: "status_writes (events_of (persistDocument ''doc1'')
        (with_doc (uploaded_hash\<lparr>h_status := Some VALIDATED\<rparr>) uploaded_world
           \<lparr>faults := [None, None, Some ''ECONNRESET'']\<rparr>)) = [PERSISTED, FAILED]"
    using writes_stay_in_graph
      [of "''doc1''" "with_doc (uploaded_hash\<lparr>h_status := Some VALIDATED\<rparr>) uploaded_world
           \<lparr>faults := [None, None, Some ''ECONNRESET'']\<rparr>" VALIDATED "''ECONNRESET''" "[]"]
    by (simp add: world_defs status_writes_def)
  from a b c d e f g h i show ?thesis by blast
qed

end
